theory Spec2Isabelle
  imports Complex_Main
begin

section \<open>Python strings\<close>

text \<open>
  A Python \<open>str\<close> is a sequence of Unicode code points, so a string is a list of
  natural numbers here, and \<open>py ''abc''\<close> is the string of an ASCII literal. The
  whitespace class is the one of \<open>str.strip()\<close>, \<open>str.isspace()\<close> and of \<open>\s\<close> in
  \<open>re\<close> (the same table in CPython). Case conversion (\<open>str.lower\<close>, \<open>str.upper\<close>) and
  the word class of \<open>\b\<close> are modelled on ASCII: letters with a case outside ASCII are
  outside the model.
\<close>

type_synonym codepoint = nat
type_synonym pystr = "codepoint list"

definition py :: "string \<Rightarrow> pystr" where
  "py s = map of_char s"

definition isspace :: "codepoint \<Rightarrow> bool" where
  "isspace c \<longleftrightarrow>
     (9 \<le> c \<and> c \<le> 13) \<or> (28 \<le> c \<and> c \<le> 32) \<or> c = 133 \<or> c = 160 \<or> c = 5760 \<or>
     (8192 \<le> c \<and> c \<le> 8202) \<or> c = 8232 \<or> c = 8233 \<or> c = 8239 \<or> c = 8287 \<or> c = 12288"

definition lstrip :: "pystr \<Rightarrow> pystr" where
  "lstrip s = dropWhile isspace s"

definition rstrip :: "pystr \<Rightarrow> pystr" where
  "rstrip s = rev (dropWhile isspace (rev s))"

definition strip :: "pystr \<Rightarrow> pystr" where
  "strip s = rstrip (lstrip s)"

definition lower_cp :: "codepoint \<Rightarrow> codepoint" where
  "lower_cp c = (if 65 \<le> c \<and> c \<le> 90 then c + 32 else c)"

definition upper_cp :: "codepoint \<Rightarrow> codepoint" where
  "upper_cp c = (if 97 \<le> c \<and> c \<le> 122 then c - 32 else c)"

definition lower :: "pystr \<Rightarrow> pystr" where
  "lower s = map lower_cp s"

definition upper :: "pystr \<Rightarrow> pystr" where
  "upper s = map upper_cp s"

definition startswith :: "pystr \<Rightarrow> pystr \<Rightarrow> bool" where
  "startswith s p \<longleftrightarrow> take (length p) s = p"

definition endswith :: "pystr \<Rightarrow> pystr \<Rightarrow> bool" where
  "endswith s p \<longleftrightarrow> length p \<le> length s \<and> drop (length s - length p) s = p"

text \<open>\<open>contains k s\<close> is Python's \<open>k in s\<close> on strings.\<close>

fun contains :: "pystr \<Rightarrow> pystr \<Rightarrow> bool" where
  "contains k [] \<longleftrightarrow> k = []"
| "contains k (c # cs) \<longleftrightarrow> startswith (c # cs) k \<or> contains k cs"

text \<open>\<open>a or b\<close> on optional strings: the first operand when it is truthy (neither
  \<open>None\<close> nor empty).\<close>

definition truthy :: "pystr option \<Rightarrow> bool" where
  "truthy v \<longleftrightarrow> v \<noteq> None \<and> v \<noteq> Some []"

definition py_or :: "pystr option \<Rightarrow> pystr option \<Rightarrow> pystr option" where
  "py_or a b = (if truthy a then a else b)"

definition or_empty :: "pystr option \<Rightarrow> pystr" where
  "or_empty v = (case v of None \<Rightarrow> [] | Some s \<Rightarrow> s)"


section \<open>Canonical playlist key (core/runner.py)\<close>

text \<open>
  \<open>Path.stem\<close> of a file name (the final path component): the name without its last
  suffix, where a dot in first or last position starts no suffix.
\<close>

fun rfind :: "codepoint \<Rightarrow> pystr \<Rightarrow> nat option" where
  "rfind c [] = None"
| "rfind c (x # xs) =
     (case rfind c xs of
        Some i \<Rightarrow> Some (Suc i)
      | None \<Rightarrow> if x = c then Some 0 else None)"

definition path_stem :: "pystr \<Rightarrow> pystr" where
  "path_stem name =
     (case rfind 46 name of
        Some i \<Rightarrow> if 0 < i \<and> Suc i < length name then take i name else name
      | None \<Rightarrow> name)"

definition strip_prefix :: "pystr \<Rightarrow> pystr \<Rightarrow> pystr" where
  "strip_prefix stem prefix = (if startswith stem prefix then drop (length prefix) stem else stem)"

text \<open>\<open>stem[: -len(suffix)]\<close>; the suffixes of the source are not empty.\<close>

definition strip_suffix :: "pystr \<Rightarrow> pystr \<Rightarrow> pystr" where
  "strip_suffix stem suffix =
     (if endswith stem suffix then take (length stem - length suffix) stem else stem)"

definition KEY_PREFIXES :: "pystr list" where
  "KEY_PREFIXES = [py ''__tmp_fixed_'', py ''draft_fixed_'', py ''fixed_'']"

definition KEY_SUFFIXES :: "pystr list" where
  "KEY_SUFFIXES = [py ''_selected'']"

text \<open>The stem after the two loops that strip the known prefixes and suffixes.\<close>

definition stripped_stem :: "pystr \<Rightarrow> pystr" where
  "stripped_stem name =
     foldl strip_suffix (foldl strip_prefix (path_stem name) KEY_PREFIXES) KEY_SUFFIXES"

text \<open>\<open>canonical_key\<close> on the file name of the playlist path.\<close>

definition canonical_key :: "pystr \<Rightarrow> pystr" where
  "canonical_key name =
     (let stem = strip (stripped_stem name) in if stem \<noteq> [] then stem else path_stem name)"

section \<open>Report rows (core/runner.py)\<close>

text \<open>
  A report is read with \<open>csv.DictReader\<close>: each row is a dictionary from the header's
  column names to the cell texts, a map here (a column that is missing in a short row
  reads as \<open>None\<close>, as an absent key does under \<open>r.get\<close>). \<open>_read_report_rows\<close> adds the
  position \<open>_i\<close> and fills in \<open>row_index\<close>; a report file that does not exist gives no
  rows.
\<close>

fun str_nat :: "nat \<Rightarrow> pystr" where
  "str_nat n = (if n < 10 then [48 + n] else str_nat (n div 10) @ [48 + n mod 10])"

definition str_int :: "int \<Rightarrow> pystr" where
  "str_int i = (if i < 0 then 45 # str_nat (nat (- i)) else str_nat (nat i))"

record csv_row =
  cells :: "pystr \<rightharpoonup> pystr"
  row_i :: nat

definition read_row :: "nat \<Rightarrow> (pystr \<rightharpoonup> pystr) \<Rightarrow> csv_row" where
  "read_row i r =
     \<lparr>cells = r(py ''row_index'' \<mapsto>
        (case r (py ''row_index'') of
           None \<Rightarrow> str_nat i
         | Some v \<Rightarrow> if v = [] then str_nat i else strip v)),
      row_i = i\<rparr>"

definition read_report_rows :: "(pystr \<rightharpoonup> pystr) list \<Rightarrow> csv_row list" where
  "read_report_rows ds = map (\<lambda>(i, r). read_row i r) (enumerate 0 ds)"

definition get :: "csv_row \<Rightarrow> string \<Rightarrow> pystr option" where
  "get r k = cells r (py k)"


subsection \<open>Status classification\<close>

definition RESOLVED_KEYWORDS :: "pystr list" where
  "RESOLVED_KEYWORDS =
     [py ''KEPT'', py ''REPAIRED'', py ''FIXED'', py ''OK'', py ''DONE'', py ''SUCCESS'',
      py ''RESOLV'']"

definition AMBIGUOUS_KEYWORDS :: "pystr list" where
  "AMBIGUOUS_KEYWORDS =
     [py ''AMBIG'', py ''MULTI'', py ''CONFLICT'', py ''DUPLIC'', py ''CANDIDATE'',
      py ''MULTIPLE'']"

definition FAILED_KEYWORDS :: "pystr list" where
  "FAILED_KEYWORDS =
     [py ''FAIL'', py ''NOT_FOUND'', py ''NOTFOUND'', py ''MISSING'', py ''MISS'',
      py ''ERROR'', py ''ERR'']"

text \<open>\<open>any(k in st for k in keywords)\<close>\<close>

definition any_in :: "pystr list \<Rightarrow> pystr \<Rightarrow> bool" where
  "any_in keywords st \<longleftrightarrow> list_ex (\<lambda>k. contains k st) keywords"

text \<open>The local \<open>norm\<close> of \<open>_classify_for_ui\<close>: \<open>(s or "").strip().upper()\<close>.\<close>

definition norm_status :: "pystr \<Rightarrow> pystr" where
  "norm_status s = upper (strip s)"

text \<open>The result is \<open>RESOLVED\<close>, \<open>AMBIGUOUS\<close>, \<open>FAILED\<close> or the empty string (unknown).\<close>

definition classify_status :: "pystr \<Rightarrow> pystr" where
  "classify_status st0 =
     (let st = norm_status st0 in
      if st = [] then []
      else if any_in RESOLVED_KEYWORDS st then py ''RESOLVED''
      else if any_in AMBIGUOUS_KEYWORDS st then py ''AMBIGUOUS''
      else if any_in FAILED_KEYWORDS st then py ''FAILED''
      else [])"


subsection \<open>Candidates in the notes, rows of the unresolved view\<close>




text \<open>
  \<open>Path(p).name\<close> depends on the platform's path flavour, so the final-component
  function is a parameter \<open>path_name\<close> of the candidate parser.
\<close>



text \<open>
  \<open>int(text)\<close> on ASCII input: surrounding whitespace, an optional sign, and decimal
  digits in groups separated by single underscores; \<open>None\<close> stands for \<open>ValueError\<close>.
\<close>

definition is_digit :: "codepoint \<Rightarrow> bool" where
  "is_digit c \<longleftrightarrow> 48 \<le> c \<and> c \<le> 57"

definition digits_value :: "pystr \<Rightarrow> nat" where
  "digits_value ds = foldl (\<lambda>v c. 10 * v + (c - 48)) 0 ds"





text \<open>\<open>r.get("status") or ""\<close>\<close>

definition status_raw :: "csv_row \<Rightarrow> pystr" where
  "status_raw r = or_empty (py_or (get r ''status'') (Some []))"




subsection \<open>Export of the final playlist\<close>

definition FINAL_KEYS :: "string list" where
  "FINAL_KEYS =
     [''written_path'', ''written'',
      ''final_path'', ''final'',
      ''resolved_path'', ''resolved'',
      ''picked_path'', ''picked'',
      ''chosen_path'', ''chosen'',
      ''selected_path'', ''selected'',
      ''output_path'', ''output'',
      ''result_path'', ''result'',
      ''target_path'', ''target'',
      ''matched_path'', ''matched'']"

definition is_resolved_status :: "pystr \<Rightarrow> bool" where
  "is_resolved_status st \<longleftrightarrow> any_in RESOLVED_KEYWORDS (upper (strip st))"

fun pick_final_from :: "string list \<Rightarrow> csv_row \<Rightarrow> pystr" where
  "pick_final_from [] rr = []"
| "pick_final_from (k # ks) rr =
     (let s = strip (or_empty (get rr k)) in
      if s \<noteq> [] then s else pick_final_from ks rr)"

definition pick_final :: "csv_row \<Rightarrow> pystr" where
  "pick_final rr = pick_final_from FINAL_KEYS rr"

text \<open>The row index, the original path and the final path of a row as
  \<open>export_fixed_multi\<close> computes them in its loop.\<close>

definition row_index_text :: "csv_row \<Rightarrow> pystr" where
  "row_index_text r =
     strip (case get r ''row_index'' of
              Some v \<Rightarrow> v
            | None \<Rightarrow> str_nat (row_i r))"

definition orig_path :: "csv_row \<Rightarrow> pystr" where
  "orig_path r =
     strip (or_empty (py_or (get r ''original_path'') (py_or (get r ''original'') (Some []))))"

definition export_path :: "(pystr \<rightharpoonup> pystr) \<Rightarrow> csv_row \<Rightarrow> pystr" where
  "export_path selections r =
     (let row_index = row_index_text r;
          orig = orig_path r;
          status = strip (status_raw r);
          final_path = pick_final r;
          chosen = (if row_index \<noteq> [] then selections row_index else None)
      in if truthy chosen then or_empty chosen
         else if is_resolved_status status then (if final_path \<noteq> [] then final_path else orig)
         else orig)"

text \<open>The lines one report row appends: its EXTINF line when the row carries one, then
  one path line.\<close>

definition export_extinf :: "csv_row \<Rightarrow> pystr" where
  "export_extinf r =
     strip (or_empty (py_or (get r ''extinf_line'') (py_or (get r ''extinf'') (Some []))))"

definition export_row :: "(pystr \<rightharpoonup> pystr) \<Rightarrow> csv_row \<Rightarrow> pystr list" where
  "export_row selections r =
     (if export_extinf r \<noteq> [] then [export_extinf r] else []) @ [export_path selections r]"

definition export_lines :: "(pystr \<rightharpoonup> pystr) \<Rightarrow> csv_row list \<Rightarrow> pystr list" where
  "export_lines selections rows = py ''#EXTM3U'' # concat (map (export_row selections) rows)"

fun join :: "pystr \<Rightarrow> pystr list \<Rightarrow> pystr" where
  "join sep [] = []"
| "join sep [x] = x"
| "join sep (x # y # ys) = x @ sep @ join sep (y # ys)"

text \<open>
  An export job: the rows \<open>csv.DictReader\<close> yields for \<open>job["report_csv"]\<close>, the output
  path and the manual selections. \<open>cancel i\<close> is the answer of the cancel flag before
  job \<open>i\<close> (constantly \<open>False\<close> when no flag is given). The result is the success flag and
  the files written, in order, as (path, text).
\<close>

record job =
  report_csv :: "(pystr \<rightharpoonup> pystr) list"
  out_m3u :: pystr
  selections :: "pystr \<rightharpoonup> pystr"

fun export_jobs ::
  "(nat \<Rightarrow> bool) \<Rightarrow> nat \<Rightarrow> job list \<Rightarrow> (pystr \<times> pystr) list \<Rightarrow> bool \<times> (pystr \<times> pystr) list"
where
  "export_jobs cancel i [] written = (True, written)"
| "export_jobs cancel i (j # js) written =
     (if cancel i then (False, written)
      else
        let rows = read_report_rows (report_csv j);
            lines = export_lines (selections j) rows
        in export_jobs cancel (Suc i) js (written @ [(out_m3u j, join [10] lines @ [10])]))"

definition export_fixed_multi :: "(nat \<Rightarrow> bool) \<Rightarrow> job list \<Rightarrow> bool \<times> (pystr \<times> pystr) list" where
  "export_fixed_multi cancel jobs = export_jobs cancel 0 jobs []"

section \<open>Normalization and similarity (core/vendor/repair_playlist_safe_v4.py)\<close>

text \<open>\<open>s.replace(a, b)\<close> for a one-character \<open>a\<close>, and \<open>re.sub\<close> of a character class.\<close>

definition replace1 :: "codepoint \<Rightarrow> pystr \<Rightarrow> pystr \<Rightarrow> pystr" where
  "replace1 a b s = concat (map (\<lambda>c. if c = a then b else [c]) s)"

definition sub_class :: "(codepoint \<Rightarrow> bool) \<Rightarrow> pystr \<Rightarrow> pystr \<Rightarrow> pystr" where
  "sub_class P b s = concat (map (\<lambda>c. if P c then b else [c]) s)"

text \<open>\<open>_DASHES\<close>: en dash U+2013 and em dash U+2014. \<open>_BAD_PUNCT\<close>: middle dot U+00B7,
  bullet U+2022 and the vertical bar.\<close>

definition DASHES :: "codepoint \<Rightarrow> bool" where
  "DASHES c \<longleftrightarrow> c = 8211 \<or> c = 8212"

definition BAD_PUNCT :: "codepoint \<Rightarrow> bool" where
  "BAD_PUNCT c \<longleftrightarrow> c = 183 \<or> c = 8226 \<or> c = 124"

text \<open>The word class \<open>\w\<close> on ASCII: letters, digits and the underscore.\<close>

definition is_word :: "codepoint \<Rightarrow> bool" where
  "is_word c \<longleftrightarrow> (48 \<le> c \<and> c \<le> 57) \<or> (65 \<le> c \<and> c \<le> 90) \<or> c = 95 \<or> (97 \<le> c \<and> c \<le> 122)"

text \<open>
  \<open>_FEAT = \b(feat\.|ft\.)\b\<close>, ignoring case. \<open>\b\<close> holds between two positions when
  exactly one of the neighbouring characters is a word character (the ends of the
  string count as not a word character). \<open>feat_match prev s\<close> is the length of the match
  that starts at the head of \<open>s\<close>, where \<open>prev\<close> tells whether the character before
  \<open>s\<close> is a word character.
\<close>

definition word_at :: "pystr \<Rightarrow> nat \<Rightarrow> bool" where
  "word_at s i \<longleftrightarrow> i < length s \<and> is_word (s ! i)"

definition word_boundary :: "bool \<Rightarrow> bool \<Rightarrow> bool" where
  "word_boundary l r \<longleftrightarrow> (l \<and> \<not> r) \<or> (\<not> l \<and> r)"

definition feat_match :: "bool \<Rightarrow> pystr \<Rightarrow> nat option" where
  "feat_match prev s =
     (if word_boundary prev (word_at s 0) \<and> lower (take 5 s) = py ''feat.'' \<and>
         word_boundary (is_word 46) (word_at s 5) then Some 5
      else if word_boundary prev (word_at s 0) \<and> lower (take 3 s) = py ''ft.'' \<and>
         word_boundary (is_word 46) (word_at s 3) then Some 3
      else None)"

text \<open>\<open>_FEAT.sub("feat", s)\<close>: the matches are found from left to right, each search
  starting where the last match ended.\<close>

function feat_sub :: "bool \<Rightarrow> pystr \<Rightarrow> pystr" where
  "feat_sub prev [] = []"
| "feat_sub prev (c # cs) =
     (case feat_match prev (c # cs) of
        Some n \<Rightarrow> py ''feat'' @ feat_sub (is_word 46) (drop n (c # cs))
      | None \<Rightarrow> c # feat_sub (is_word c) cs)"
  by pat_completeness auto
termination
proof (relation "measure (\<lambda>(prev, s). length s)")
  fix prev :: bool and c :: codepoint and cs :: pystr and n :: nat
  assume "feat_match prev (c # cs) = Some n"
  then have "0 < n"
    by (auto simp: feat_match_def split: if_splits)
  then show "((is_word 46, drop n (c # cs)), (prev, c # cs)) \<in> measure (\<lambda>(prev, s). length s)"
    by simp
qed simp_all

text \<open>
  \<open>_REMOVE_PARENS = [\(\[\{].*?[\)\]\}]\<close>: from an opening bracket to the nearest
  closing bracket of any kind on the same line (\<open>.\<close> does not match the newline, code
  point 10). \<open>find_close s\<close> is what follows that closing bracket.
\<close>

definition is_open :: "codepoint \<Rightarrow> bool" where
  "is_open c \<longleftrightarrow> c = 40 \<or> c = 91 \<or> c = 123"

definition is_close :: "codepoint \<Rightarrow> bool" where
  "is_close c \<longleftrightarrow> c = 41 \<or> c = 93 \<or> c = 125"

fun find_close :: "pystr \<Rightarrow> pystr option" where
  "find_close [] = None"
| "find_close (c # cs) =
     (if is_close c then Some cs else if c = 10 then None else find_close cs)"

function remove_parens :: "pystr \<Rightarrow> pystr" where
  "remove_parens [] = []"
| "remove_parens (c # cs) =
     (if is_open c then
        (case find_close cs of
           Some rest \<Rightarrow> remove_parens rest
         | None \<Rightarrow> c # remove_parens cs)
      else c # remove_parens cs)"
  by pat_completeness auto
termination
proof (relation "measure length")
  fix c :: codepoint and cs rest :: pystr
  assume "find_close cs = Some rest"
  then have "length rest < length cs"
    by (induction cs) (auto split: if_splits)
  then show "(rest, c # cs) \<in> measure length"
    by simp
qed simp_all

text \<open>\<open>_MULTI_SPACE.sub(" ", s)\<close>: every maximal run of whitespace becomes one space.\<close>

function collapse_ws :: "pystr \<Rightarrow> pystr" where
  "collapse_ws [] = []"
| "collapse_ws (c # cs) =
     (if isspace c then 32 # collapse_ws (dropWhile isspace cs) else c # collapse_ws cs)"
  by pat_completeness auto
termination
  by (relation "measure length") (auto simp: length_dropWhile_le less_Suc_eq_le)

text \<open>\<open>norm\<close> (named \<open>norm_text\<close> here); \<open>None\<close> is Python's \<open>None\<close>. The quote characters are U+2019, U+2018, the
  backtick (96) and the acute accent U+00B4; 39 is the apostrophe, 95 the underscore,
  U+3000 (12288) the full-width space.\<close>

definition norm_text :: "pystr option \<Rightarrow> pystr option" where
  "norm_text so =
     (case so of
        None \<Rightarrow> None
      | Some s0 \<Rightarrow>
          if s0 = [] then None
          else
            let s = strip s0;
                s = sub_class DASHES (py ''-'') s;
                s = replace1 180 [39] (replace1 96 [39] (replace1 8216 [39] (replace1 8217 [39] s)));
                s = replace1 39 [] s;
                s = sub_class BAD_PUNCT (py '' '') s;
                s = replace1 95 (py '' '') s;
                s = replace1 12288 (py '' '') s;
                s = lower s;
                s = feat_sub False s;
                s = remove_parens s;
                s = strip (collapse_ws s)
            in if s = [] then None else Some s)"

text \<open>
  \<open>tokens\<close>: \<open>re.split\<close> on runs of the separator class (space, tab, slash, backslash,
  hyphen, colon, comma, semicolon, full stop, exclamation and question mark), the empty
  pieces dropped, as a set.
\<close>

definition is_sep :: "codepoint \<Rightarrow> bool" where
  "is_sep c \<longleftrightarrow> c \<in> set (py '' /-:,;.!?'') \<or> c = 9 \<or> c = 92"

function split_class :: "(codepoint \<Rightarrow> bool) \<Rightarrow> pystr \<Rightarrow> pystr \<Rightarrow> pystr list" where
  "split_class P cur [] = [cur]"
| "split_class P cur (c # cs) =
     (if P c then cur # split_class P [] (dropWhile P cs)
      else split_class P (cur @ [c]) cs)"
  by pat_completeness auto
termination
  by (relation "measure (\<lambda>(P, cur, s). length s)") (auto simp: length_dropWhile_le less_Suc_eq_le)

definition tokens :: "pystr option \<Rightarrow> pystr set" where
  "tokens so =
     (case so of
        None \<Rightarrow> {}
      | Some s \<Rightarrow> if s = [] then {} else set (filter (\<lambda>p. p \<noteq> []) (split_class is_sep [] s)))"

text \<open>
  \<open>jaccard\<close> returns a Python float, the quotient of two token counts. It is the exact
  quotient here: the values \<open>0.0\<close> and \<open>1.0\<close> are exact in floating point, and against the
  thresholds \<open>0.85\<close> and \<open>0.90\<close> of the matcher the correctly rounded quotient of two
  counts below \<open>10^14\<close> compares as the exact one does.
\<close>

definition jaccard :: "pystr option \<Rightarrow> pystr option \<Rightarrow> rat" where
  "jaccard a b =
     (let ta = tokens a; tb = tokens b in
      if ta = {} \<or> tb = {} then 0
      else
        let inter = card (ta \<inter> tb); union = card (ta \<union> tb)
        in if union \<noteq> 0 then of_nat inter / of_nat union else 0)"

section \<open>EXTINF lines and candidate pairs\<close>

text \<open>
  \<open>parse_extinf\<close>: \<open>re.match(r"#EXTINF:(-?\d+)\s*,\s*(.*)$", line.strip())\<close>, the result
  being \<open>(int(group 1), group(2).strip())\<close> or \<open>(None, None)\<close>. The digits are the ASCII
  digits. Code points: 45 is the hyphen, 44 the comma, 10 the newline, which \<open>.\<close> does
  not match.
\<close>

definition parse_extinf :: "pystr \<Rightarrow> int option \<times> pystr option" where
  "parse_extinf line =
     (let s = strip line in
      if \<not> startswith s (py ''#EXTINF:'') then (None, None)
      else
        let r = drop (length (py ''#EXTINF:'')) s;
            neg = (r \<noteq> [] \<and> hd r = 45);
            r1 = (if neg then tl r else r);
            ds = takeWhile is_digit r1;
            r2 = dropWhile isspace (dropWhile is_digit r1)
        in if ds = [] \<or> r2 = [] \<or> hd r2 \<noteq> 44 \<or> 10 \<in> set (dropWhile isspace (tl r2))
           then (None, None)
           else (Some ((if neg then - 1 else 1) * int (digits_value ds)),
                 Some (strip (dropWhile isspace (tl r2)))))"

text \<open>
  \<open>re.split(r"\s+-\s+", s)\<close>: a separator is a maximal run of whitespace, a hyphen and
  the maximal run of whitespace after it; \<open>cur\<close> is the piece read so far.
\<close>

function split_dash :: "pystr \<Rightarrow> pystr \<Rightarrow> pystr list" where
  "split_dash cur [] = [cur]"
| "split_dash cur (c # cs) =
     (if isspace c then
        (let rest = dropWhile isspace cs in
         if rest \<noteq> [] \<and> hd rest = 45 \<and> tl rest \<noteq> [] \<and> isspace (hd (tl rest))
         then cur # split_dash [] (dropWhile isspace (tl rest))
         else split_dash (cur @ c # takeWhile isspace cs) rest)
      else split_dash (cur @ [c]) cs)"
  by pat_completeness auto
termination
proof (relation "measure (\<lambda>(cur, s). length s)")
  fix cur :: pystr and c :: codepoint and cs rest :: pystr
  assume r: "rest = dropWhile isspace cs" and ne: "rest \<noteq> [] \<and> hd rest = 45 \<and> tl rest \<noteq> [] \<and> isspace (hd (tl rest))"
  have "length (dropWhile isspace (tl rest)) \<le> length (tl rest)"
    by (rule length_dropWhile_le)
  also have "\<dots> \<le> length rest"
    by simp
  also have "\<dots> \<le> length cs"
    unfolding r by (rule length_dropWhile_le)
  finally show "(([], dropWhile isspace (tl rest)), (cur, c # cs)) \<in> measure (\<lambda>(cur, s). length s)"
    by simp
qed (auto simp: length_dropWhile_le less_Suc_eq_le)

text \<open>The pairs are (title, artist), the artist \<open>None\<close> when absent.\<close>

type_synonym pair = "pystr \<times> pystr option"

fun dedup_pairs :: "pair list \<Rightarrow> pair list \<Rightarrow> pair list" where
  "dedup_pairs seen [] = []"
| "dedup_pairs seen ((t, a) # ps) =
     (if t = [] \<or> (t, a) \<in> set seen then dedup_pairs seen ps
      else (t, a) # dedup_pairs ((t, a) # seen) ps)"

definition normalized_parts :: "pystr \<Rightarrow> pystr list" where
  "normalized_parts disp =
     (let disp2 = strip (replace1 8212 (py ''-'') (replace1 8211 (py ''-'') disp));
          raw_parts = map strip (filter (\<lambda>p. strip p \<noteq> []) (split_dash [] disp2));
          parts = map (\<lambda>p. norm_text (Some p)) raw_parts
      in map or_empty (filter truthy parts))"

definition candidate_pairs_from_display :: "pystr option \<Rightarrow> pair list" where
  "candidate_pairs_from_display dispo =
     (if \<not> truthy dispo then []
      else
        let parts = normalized_parts (or_empty dispo) in
        if parts = [] then []
        else
          let pairs =
            (if length parts = 1 then [(parts ! 0, None)]
             else if length parts = 2 then
               [(parts ! 0, Some (parts ! 1)), (parts ! 1, Some (parts ! 0))]
             else
               [(parts ! 1, Some (parts ! 0)),
                (join (py '' - '') (tl parts), Some (parts ! 0)),
                (join (py '' - '') (butlast parts), Some (last parts)),
                (join (py '' - '') parts, None),
                (join (py '' - '') (butlast parts), None),
                (parts ! 1, None)])
          in dedup_pairs [] pairs)"


section \<open>The index and the matcher\<close>

text \<open>
  An item of \<open>music_index.json\<close> as \<open>repair_playlist\<close> reads it (\<open>None\<close> for a key that
  is absent or null), and a song of the duration buckets \<open>by_dur\<close>, with its normalized
  title and artist.
\<close>

record index_item =
  it_path :: "pystr option"
  it_duration :: "int option"
  it_title :: "pystr option"
  it_artist :: "pystr option"
  it_meta_source :: pystr

record song =
  title :: pystr
  artist :: pystr
  duration :: int
  path :: pystr

definition add_item :: "(int \<rightharpoonup> song list) \<Rightarrow> index_item \<Rightarrow> (int \<rightharpoonup> song list)" where
  "add_item by_dur it =
     (case (norm_text (it_title it), norm_text (it_artist it), it_duration it, it_path it) of
        (Some t, Some a, Some dur, Some p) \<Rightarrow>
          if p = [] then by_dur
          else by_dur(dur \<mapsto>
                 (case by_dur dur of None \<Rightarrow> [] | Some l \<Rightarrow> l) @
                 [\<lparr>title = t, artist = a, duration = dur, path = p\<rparr>])
      | _ \<Rightarrow> by_dur)"

definition build_by_dur :: "index_item list \<Rightarrow> (int \<rightharpoonup> song list)" where
  "build_by_dur music_index = foldl add_item Map.empty music_index"

text \<open>The candidates of \<open>find_matches\<close>: the buckets of \<open>range(dur - dur_tol, dur + dur_tol + 1)\<close>.\<close>

definition candidates :: "(int \<rightharpoonup> song list) \<Rightarrow> int \<Rightarrow> int \<Rightarrow> song list" where
  "candidates by_dur dur_tol dur =
     concat (map (\<lambda>d. case by_dur d of None \<Rightarrow> [] | Some l \<Rightarrow> l) [dur - dur_tol ..dur + dur_tol])"

definition is_exact :: "pystr option \<Rightarrow> pystr option \<Rightarrow> song \<Rightarrow> bool" where
  "is_exact title_n artist_n s \<longleftrightarrow>
     Some (title s) = title_n \<and> (artist_n = None \<or> Some (artist s) = artist_n)"

definition is_fuzzy :: "pystr option \<Rightarrow> pystr option \<Rightarrow> song \<Rightarrow> bool" where
  "is_fuzzy title_n artist_n s \<longleftrightarrow>
     (case artist_n of
        Some a \<Rightarrow> artist s = a \<and> 85 / 100 \<le> jaccard (Some (title s)) title_n
      | None \<Rightarrow> 90 / 100 \<le> jaccard (Some (title s)) title_n)"

definition find_matches ::
  "(int \<rightharpoonup> song list) \<Rightarrow> int \<Rightarrow> pystr option \<Rightarrow> pystr option \<Rightarrow> int \<Rightarrow> song list"
where
  "find_matches by_dur dur_tol title_n artist_n dur =
     (let cand = candidates by_dur dur_tol dur in
      if cand = [] \<or> \<not> truthy title_n then []
      else
        let exact = filter (is_exact title_n artist_n) cand in
        if length exact = 1 then exact
        else if length exact > 1 then exact
        else filter (is_fuzzy title_n artist_n) cand)"


section \<open>Repairing a playlist\<close>

text \<open>A row of the report: status, EXTINF duration and display, original path, written
  path, notes.\<close>

record report_row =
  r_status :: pystr
  r_extinf_duration :: "int option"
  r_extinf_display :: "pystr option"
  r_original_path :: pystr
  r_written_path :: pystr
  r_notes :: pystr

text \<open>The state of the loop of \<open>repair_playlist\<close>: the output lines, the rows of the
  report and the counters (\<open>total\<close> is \<open>total_count\<close> here).\<close>

record repair_state =
  out_lines :: "pystr list"
  report_rows :: "report_row list"
  total_count :: nat
  kept :: nat
  repaired :: nat
  ambiguous :: nat
  failed :: nat

definition rstrip_nl :: "pystr \<Rightarrow> pystr" where
  "rstrip_nl s = rev (dropWhile (\<lambda>c. c = 10) (rev s))"

text \<open>
  The inner loop that adds the matches of one pair: \<open>seen\<close> is the set of the paths
  accumulated before the loop starts.
\<close>

definition add_matches :: "song list \<Rightarrow> song list \<Rightarrow> song list" where
  "add_matches all_matches ms =
     (if ms = [] then all_matches
      else
        let seen = set (map path all_matches)
        in all_matches @ filter (\<lambda>m. path m \<notin> seen) ms)"

definition collect_matches ::
  "(int \<rightharpoonup> song list) \<Rightarrow> int \<Rightarrow> int \<Rightarrow> pair list \<Rightarrow> song list"
where
  "collect_matches by_dur dur_tol dur pairs =
     (let all_matches =
            foldl (\<lambda>acc (t, a). add_matches acc (find_matches by_dur dur_tol (Some t) a dur)) [] pairs
      in if all_matches = [] \<and> pairs \<noteq> [] then
           foldl (\<lambda>acc (t, a). add_matches acc (find_matches by_dur dur_tol (Some t) None dur))
             all_matches pairs
         else all_matches)"

text \<open>
  One EXTINF unit. \<open>exists\<close> is \<open>os.path.exists\<close>; \<open>st\<close> already holds the EXTINF line in
  its output lines.
\<close>

definition process_unit ::
  "(pystr \<Rightarrow> bool) \<Rightarrow> (int \<rightharpoonup> song list) \<Rightarrow> int \<Rightarrow> pystr \<Rightarrow> pystr \<Rightarrow> repair_state \<Rightarrow> repair_state"
where
  "process_unit exists by_dur dur_tol line orig st0 =
     (let st = st0\<lparr>total_count := total_count st0 + 1\<rparr>;
          (dur, disp) = parse_extinf line
      in if exists orig then
           st\<lparr>out_lines := out_lines st @ [orig], kept := kept st + 1,
              report_rows := report_rows st @
                [\<lparr>r_status = py ''KEPT'', r_extinf_duration = dur, r_extinf_display = disp,
                  r_original_path = orig, r_written_path = orig, r_notes = []\<rparr>]\<rparr>
         else
           (case dur of
              None \<Rightarrow>
                st\<lparr>out_lines := out_lines st @ [orig], failed := failed st + 1,
                   report_rows := report_rows st @
                     [\<lparr>r_status = py ''FAILED_NO_EXTINF'', r_extinf_duration = dur, r_extinf_display = disp,
                       r_original_path = orig, r_written_path = orig,
                       r_notes = py ''no duration or display''\<rparr>]\<rparr>
            | Some d \<Rightarrow>
                if d < 0 \<or> \<not> truthy disp then
                  st\<lparr>out_lines := out_lines st @ [orig], failed := failed st + 1,
                     report_rows := report_rows st @
                       [\<lparr>r_status = py ''FAILED_NO_EXTINF'', r_extinf_duration = dur, r_extinf_display = disp,
                         r_original_path = orig, r_written_path = orig,
                         r_notes = py ''no duration or display''\<rparr>]\<rparr>
                else
                  let pairs = candidate_pairs_from_display disp;
                      all_matches = collect_matches by_dur dur_tol d pairs
                  in if length all_matches = 1 then
                       st\<lparr>out_lines := out_lines st @ [path (all_matches ! 0)],
                          repaired := repaired st + 1,
                          report_rows := report_rows st @
                            [\<lparr>r_status = py ''REPAIRED'', r_extinf_duration = dur, r_extinf_display = disp,
                              r_original_path = orig, r_written_path = path (all_matches ! 0),
                              r_notes = []\<rparr>]\<rparr>
                     else if length all_matches > 1 then
                       st\<lparr>out_lines := out_lines st @ [orig], ambiguous := ambiguous st + 1,
                          report_rows := report_rows st @
                            [\<lparr>r_status = py ''AMBIGUOUS'', r_extinf_duration = dur, r_extinf_display = disp,
                              r_original_path = orig, r_written_path = orig,
                              r_notes = join (py '' | '') (map path (take 5 all_matches))\<rparr>]\<rparr>
                     else
                       st\<lparr>out_lines := out_lines st @ [orig], failed := failed st + 1,
                          report_rows := report_rows st @
                            [\<lparr>r_status = py ''FAILED'', r_extinf_duration = dur, r_extinf_display = disp,
                              r_original_path = orig, r_written_path = orig,
                              r_notes = py ''no match''\<rparr>]\<rparr>))"

text \<open>The \<open>while\<close> loop over the lines of the playlist, from the current line on.\<close>

fun repair_loop ::
  "(pystr \<Rightarrow> bool) \<Rightarrow> (int \<rightharpoonup> song list) \<Rightarrow> int \<Rightarrow> pystr list \<Rightarrow> repair_state \<Rightarrow> repair_state"
where
  "repair_loop exists by_dur dur_tol [] st = st"
| "repair_loop exists by_dur dur_tol [l] st = st\<lparr>out_lines := out_lines st @ [rstrip_nl l]\<rparr>"
| "repair_loop exists by_dur dur_tol (l # p # rest) st =
     (let line = rstrip_nl l;
          st1 = st\<lparr>out_lines := out_lines st @ [line]\<rparr>
      in if startswith line (py ''#EXTINF'') then
           repair_loop exists by_dur dur_tol rest
             (process_unit exists by_dur dur_tol line (rstrip_nl p) st1)
         else repair_loop exists by_dur dur_tol (p # rest) st1)"

text \<open>
  \<open>repair_playlist\<close> on the index items and the lines of the playlist (as \<open>readlines\<close>
  returns them); the state it returns holds the lines of the output playlist, the rows
  of the report and the counters of the summary.
\<close>

definition repair_playlist ::
  "(pystr \<Rightarrow> bool) \<Rightarrow> index_item list \<Rightarrow> int \<Rightarrow> pystr list \<Rightarrow> repair_state"
where
  "repair_playlist exists music_index dur_tol lines =
     repair_loop exists (build_by_dur music_index) dur_tol lines
       \<lparr>out_lines = [], report_rows = [], total_count = 0, kept = 0, repaired = 0,
        ambiguous = 0, failed = 0\<rparr>"

definition DUR_TOL_DEFAULT :: int where
  "DUR_TOL_DEFAULT = 2"

text \<open>
  The report file: \<open>csv.writer\<close> writes the header and one line per row, \<open>None\<close> as the
  empty text and the duration in decimal; \<open>csv.DictReader\<close> reads each line back as a
  dictionary from the header's names to the cell texts.
\<close>

definition REPORT_HEADER :: "string list" where
  "REPORT_HEADER =
     [''status'', ''extinf_duration'', ''extinf_display'', ''original_path'', ''written_path'',
      ''notes'']"

definition row_cells :: "report_row \<Rightarrow> pystr list" where
  "row_cells r =
     [r_status r,
      (case r_extinf_duration r of None \<Rightarrow> [] | Some d \<Rightarrow> str_int d),
      or_empty (r_extinf_display r),
      r_original_path r, r_written_path r, r_notes r]"

definition report_dicts :: "report_row list \<Rightarrow> (pystr \<rightharpoonup> pystr) list" where
  "report_dicts rows = map (\<lambda>r. map_of (zip (map py REPORT_HEADER) (row_cells r))) rows"

section \<open>Scanning a library (core/vendor/playlist_scan_safe.py)\<close>

text \<open>
  \<open>Path(fn).suffix\<close> of a file name: from the last dot on, where a dot in first or last
  position starts no suffix.
\<close>

definition path_suffix :: "pystr \<Rightarrow> pystr" where
  "path_suffix name =
     (case rfind 46 name of
        Some i \<Rightarrow> if 0 < i \<and> Suc i < length name then drop i name else []
      | None \<Rightarrow> [])"

definition SUPPORTED_EXTS :: "pystr list" where
  "SUPPORTED_EXTS =
     [py ''.flac'', py ''.alac'', py ''.m4a'', py ''.mp4'', py ''.aac'', py ''.mp3'', py ''.ogg'',
      py ''.opus'', py ''.wav'', py ''.aif'', py ''.aiff'', py ''.aifc'', py ''.ape'', py ''.wv'',
      py ''.dsf'', py ''.dff'']"

text \<open>
  The tag library is outside the repository, so a file of the walk carries what the
  library answers for it: \<open>File(path, easy=True)\<close> and \<open>File(path, easy=False)\<close> each
  raise, or return \<open>None\<close> or an audio object. Of an audio object the scan uses its truth
  value, the result of \<open>get_duration_seconds\<close> (\<open>None\<close> when the length is missing or
  reading it raises) and the title and artist that \<open>read_easy_tags\<close> or \<open>read_raw_tags\<close>
  return.
\<close>

datatype 'a probe = Raises | Returns "'a option"

record audio =
  au_truth :: bool
  au_duration :: "int option"
  au_title :: "pystr option"
  au_artist :: "pystr option"

record file_entry =
  fe_dirpath :: pystr
  fe_name :: pystr
  fe_easy :: "audio probe"
  fe_raw :: "audio probe"

text \<open>
  \<open>clean_filename_title\<close>. \<open>TRACK_PREFIX_RE = ^\s*(\(?\d{1,3}\)?[\s._-]+)+\<close>: after
  leading whitespace, one or more groups of an optional opening parenthesis, one to
  three digits, an optional closing parenthesis and a run of separators (whitespace,
  full stop, underscore, hyphen). \<open>track_group s\<close> is what follows one group at the head
  of \<open>s\<close>. The digits are the ASCII digits.
\<close>

definition is_track_sep :: "codepoint \<Rightarrow> bool" where
  "is_track_sep c \<longleftrightarrow> isspace c \<or> c = 46 \<or> c = 95 \<or> c = 45"

definition track_group :: "pystr \<Rightarrow> pystr option" where
  "track_group s =
     (let s1 = (if s \<noteq> [] \<and> hd s = 40 then tl s else s);
          ds = takeWhile is_digit s1;
          s2 = dropWhile is_digit s1;
          s3 = (if s2 \<noteq> [] \<and> hd s2 = 41 then tl s2 else s2)
      in if ds = [] \<or> 3 < length ds \<or> s3 = [] \<or> \<not> is_track_sep (hd s3) then None
         else Some (dropWhile is_track_sep s3))"

function track_groups :: "pystr \<Rightarrow> pystr" where
  "track_groups s = (case track_group s of None \<Rightarrow> s | Some rest \<Rightarrow> track_groups rest)"
  by pat_completeness auto
termination
proof (relation "measure length")
  fix s rest :: pystr
  assume a: "track_group s = Some rest"
  define s1 where "s1 = (if s \<noteq> [] \<and> hd s = 40 then tl s else s)"
  define s3 where "s3 = (if dropWhile is_digit s1 \<noteq> [] \<and> hd (dropWhile is_digit s1) = 41
    then tl (dropWhile is_digit s1) else dropWhile is_digit s1)"
  from a have r: "rest = dropWhile is_track_sep s3" and n: "s3 \<noteq> []" "is_track_sep (hd s3)"
    by (auto simp: track_group_def Let_def s1_def s3_def split: if_splits)
  from n have "length (dropWhile is_track_sep s3) < length s3"
    by (cases s3) (auto simp: less_Suc_eq_le length_dropWhile_le)
  moreover have "length s3 \<le> length (dropWhile is_digit s1)"
    by (simp add: s3_def)
  moreover have "length (dropWhile is_digit s1) \<le> length s1"
    by (rule length_dropWhile_le)
  moreover have "length s1 \<le> length s"
    by (simp add: s1_def)
  ultimately show "(rest, s) \<in> measure length"
    using r by simp
qed simp

definition track_prefix_sub :: "pystr \<Rightarrow> pystr" where
  "track_prefix_sub s =
     (case track_group (dropWhile isspace s) of
        None \<Rightarrow> s
      | Some rest \<Rightarrow> track_groups rest)"

definition clean_filename_title :: "pystr \<Rightarrow> pystr" where
  "clean_filename_title stem = strip (collapse_ws (strip (track_prefix_sub (strip stem))))"

text \<open>
  \<open>guess_artist_from_path\<close> on the parts of the path (\<open>path.parts\<close>): the deepest
  folder name that is not empty, generic, a number, at most two characters long or a
  year.
\<close>

definition GENERIC_PATH_TOKENS :: "pystr list" where
  "GENERIC_PATH_TOKENS =
     [py ''music'', py ''itunes'', py ''itunes media'', py ''media'', py ''hi-res'', py ''hires'',
      py ''lossless'', py ''lossy'', py ''downloads'', py ''download'', py ''album'', py ''albums'',
      py ''disc'', py ''cd'', py ''cd1'', py ''cd2'', py ''cd3'', py ''deluxe'', py ''edition'',
      py ''remaster'', py ''remastered'', py ''single'', py ''singles'', py ''ep'',
      py ''compilations'', py ''various artists'', py ''va'', py ''unknown'', py ''unknown artist'']"

definition normalize_token :: "pystr \<Rightarrow> pystr" where
  "normalize_token t = collapse_ws (lower (strip t))"

definition is_year :: "pystr \<Rightarrow> bool" where
  "is_year pt \<longleftrightarrow>
     length pt = 4 \<and> (take 2 pt = py ''19'' \<or> take 2 pt = py ''20'') \<and> list_all is_digit (drop 2 pt)"

fun guess_from :: "pystr list \<Rightarrow> pystr option" where
  "guess_from [] = None"
| "guess_from (p # ps) =
     (let pt = strip p in
      if pt = [] then guess_from ps
      else if normalize_token pt \<in> set GENERIC_PATH_TOKENS then guess_from ps
      else if list_all is_digit pt then guess_from ps
      else if length pt \<le> 2 then guess_from ps
      else if is_year pt then guess_from ps
      else Some pt)"

definition guess_artist_from_path :: "pystr list \<Rightarrow> pystr option" where
  "guess_artist_from_path parts = guess_from (rev (butlast parts))"

text \<open>
  The path of a file depends on the platform's path flavour: the text of the path
  (\<open>str(Path(dirpath) / fn)\<close>) and its parts (\<open>Path(dirpath) / fn).parts\<close>) are parameters
  of the scan.
\<close>

record helpers =
  h_path :: "pystr \<Rightarrow> pystr \<Rightarrow> pystr"
  h_parts :: "pystr \<Rightarrow> pystr \<Rightarrow> pystr list"

record scan_state =
  items :: "index_item list"
  scanned :: nat
  skipped_no_duration :: nat

text \<open>The metadata of the file under scan: duration, title, artist, source.\<close>

record meta =
  m_dur :: "int option"
  m_title :: "pystr option"
  m_artist :: "pystr option"
  m_source :: pystr

text \<open>\<open>try: audio = File(...) except Exception: audio = None\<close>, then \<open>if audio:\<close>.\<close>

definition opened :: "audio probe \<Rightarrow> audio option" where
  "opened pr =
     (case pr of
        Raises \<Rightarrow> None
      | Returns None \<Rightarrow> None
      | Returns (Some a) \<Rightarrow> if au_truth a then Some a else None)"

definition read_easy :: "file_entry \<Rightarrow> meta" where
  "read_easy f =
     (let m0 = \<lparr>m_dur = None, m_title = None, m_artist = None, m_source = py ''none''\<rparr> in
      case opened (fe_easy f) of
        None \<Rightarrow> m0
      | Some a \<Rightarrow>
          let m1 = m0\<lparr>m_dur := au_duration a\<rparr> in
          if truthy (au_title a) \<or> truthy (au_artist a)
          then m1\<lparr>m_title := au_title a, m_artist := au_artist a, m_source := py ''easy_tag''\<rparr>
          else m1)"

definition read_raw :: "file_entry \<Rightarrow> meta \<Rightarrow> meta" where
  "read_raw f m =
     (if m_dur m = None \<or> m_source m = py ''none'' then
        (case opened (fe_raw f) of
           None \<Rightarrow> m
         | Some a \<Rightarrow>
             let m1 = (if m_dur m = None then m\<lparr>m_dur := au_duration a\<rparr> else m) in
             if m_source m1 = py ''none'' \<and> (truthy (au_title a) \<or> truthy (au_artist a))
             then m1\<lparr>m_title := au_title a, m_artist := au_artist a, m_source := py ''raw_tag''\<rparr>
             else m1)
      else m)"

definition fill_title :: "file_entry \<Rightarrow> meta \<Rightarrow> meta" where
  "fill_title f m =
     (if \<not> truthy (m_title m) then
        m\<lparr>m_title := Some (clean_filename_title (path_stem (fe_name f))),
          m_source := (if m_source m = py ''none'' then py ''filename'' else m_source m)\<rparr>
      else m)"

definition fill_artist :: "pystr list \<Rightarrow> meta \<Rightarrow> meta" where
  "fill_artist parts m =
     (if \<not> truthy (m_artist m) then
        (let ag = guess_artist_from_path parts in
         if truthy ag then
           m\<lparr>m_artist := ag,
             m_source := (if m_source m = py ''filename'' \<or> m_source m = py ''none''
                          then py ''path_guess'' else m_source m)\<rparr>
         else m)
      else m)"

text \<open>The body of the loop over the files, for one file.\<close>

definition scan_file :: "helpers \<Rightarrow> scan_state \<Rightarrow> file_entry \<Rightarrow> scan_state" where
  "scan_file h st0 f =
     (let ext = lower (path_suffix (fe_name f)) in
      if ext \<notin> set SUPPORTED_EXTS then st0
      else
        let st = st0\<lparr>scanned := scanned st0 + 1\<rparr>;
            p = h_path h (fe_dirpath f) (fe_name f);
            m = read_raw f (read_easy f)
        in case m_dur m of
             None \<Rightarrow> st\<lparr>skipped_no_duration := skipped_no_duration st + 1\<rparr>
           | Some dur \<Rightarrow>
               let m2 = fill_artist (h_parts h (fe_dirpath f) (fe_name f)) (fill_title f m)
               in st\<lparr>items := items st @
                    [\<lparr>it_path = Some p, it_duration = Some dur, it_title = m_title m2,
                      it_artist = m_artist m2, it_meta_source = m_source m2\<rparr>]\<rparr>)"

record scan_result =
  sr_root :: pystr
  sr_scanned_supported :: nat
  sr_skipped_no_duration :: nat
  sr_indexed :: nat
  sr_items :: "index_item list"

text \<open>\<open>scan_folder\<close> on a root and the files \<open>os.walk\<close> finds under it, in its order.\<close>

definition scan_folder :: "helpers \<Rightarrow> pystr \<Rightarrow> file_entry list \<Rightarrow> scan_result" where
  "scan_folder h root_dir files =
     (let st = foldl (scan_file h) \<lparr>items = [], scanned = 0, skipped_no_duration = 0\<rparr> files in
      \<lparr>sr_root = root_dir, sr_scanned_supported = scanned st,
       sr_skipped_no_duration = skipped_no_duration st, sr_indexed = length (items st),
       sr_items = items st\<rparr>)"

record stats =
  st_roots :: "pystr list"
  st_scanned_supported :: nat
  st_skipped_no_duration :: nat
  st_indexed :: nat

text \<open>\<open>scan_multiple_roots\<close>: each root comes with the files of its walk.\<close>

definition add_root ::
  "helpers \<Rightarrow> index_item list \<times> stats \<Rightarrow> pystr \<times> file_entry list \<Rightarrow> index_item list \<times> stats"
where
  "add_root h acc r =
     (let (combined, stats) = acc;
          res = scan_folder h (fst r) (snd r)
      in (combined @ sr_items res,
          stats\<lparr>st_roots := st_roots stats @ [sr_root res],
                st_scanned_supported := st_scanned_supported stats + sr_scanned_supported res,
                st_skipped_no_duration := st_skipped_no_duration stats + sr_skipped_no_duration res\<rparr>))"

definition scan_multiple_roots ::
  "helpers \<Rightarrow> (pystr \<times> file_entry list) list \<Rightarrow> index_item list \<times> stats"
where
  "scan_multiple_roots h roots =
     (let (combined, stats) =
            foldl (add_root h)
              ([], \<lparr>st_roots = [], st_scanned_supported = 0, st_skipped_no_duration = 0,
                    st_indexed = 0\<rparr>) roots
      in (combined, stats\<lparr>st_indexed := length combined\<rparr>))"

text \<open>
  \<open>TaskRunner.scan_index\<close>: the same accumulation, with the cancel flag asked before each
  root (\<open>cancel i\<close> is its answer before root \<open>i\<close>); a cancelled scan returns no index and
  writes nothing, which is \<open>None\<close>.
\<close>

fun scan_roots ::
  "helpers \<Rightarrow> (nat \<Rightarrow> bool) \<Rightarrow> nat \<Rightarrow> (pystr \<times> file_entry list) list \<Rightarrow>
     index_item list \<times> stats \<Rightarrow> (index_item list \<times> stats) option"
where
  "scan_roots h cancel i [] acc = Some acc"
| "scan_roots h cancel i (r # rs) acc =
     (if cancel i then None else scan_roots h cancel (Suc i) rs (add_root h acc r))"

definition scan_index ::
  "helpers \<Rightarrow> (nat \<Rightarrow> bool) \<Rightarrow> (pystr \<times> file_entry list) list \<Rightarrow> (index_item list \<times> stats) option"
where
  "scan_index h cancel roots =
     (case scan_roots h cancel 0 roots
             ([], \<lparr>st_roots = [], st_scanned_supported = 0, st_skipped_no_duration = 0,
                   st_indexed = 0\<rparr>) of
        None \<Rightarrow> None
      | Some (combined, stats) \<Rightarrow> Some (combined, stats\<lparr>st_indexed := length combined\<rparr>))"

section \<open>Notions for the statements, and example inputs\<close>

text \<open>Example inputs: the path helpers for files in a folder directly under the root
  \<open>/\<close>, a tagged file, a file on which the tag library raises, and a file that is no
  audio file.\<close>

definition ex_helpers :: helpers where
  "ex_helpers =
     \<lparr>h_path = (\<lambda>d n. d @ py ''/'' @ n), h_parts = (\<lambda>d n. [py ''/'', drop 1 d, n])\<rparr>"

definition ex_tagged :: file_entry where
  "ex_tagged =
     \<lparr>fe_dirpath = py ''/m'', fe_name = py ''a.mp3'',
      fe_easy = Returns (Some \<lparr>au_truth = True, au_duration = Some 200,
                               au_title = Some (py ''Song''), au_artist = None\<rparr>),
      fe_raw = Raises\<rparr>"

definition ex_raising :: file_entry where
  "ex_raising = \<lparr>fe_dirpath = py ''/m'', fe_name = py ''b.FLAC'', fe_easy = Raises, fe_raw = Raises\<rparr>"

definition ex_text :: file_entry where
  "ex_text = \<lparr>fe_dirpath = py ''/m'', fe_name = py ''notes.txt'', fe_easy = Raises, fe_raw = Raises\<rparr>"

text \<open>A file of the walk counts as supported by its lower-cased suffix.\<close>

definition supported :: "file_entry \<Rightarrow> bool" where
  "supported f \<longleftrightarrow> lower (path_suffix (fe_name f)) \<in> set SUPPORTED_EXTS"

text \<open>The accumulated items and statistics of several roots are balanced when the
  supported files counted so far are the items plus the skipped files.\<close>

definition balanced :: "index_item list \<times> stats \<Rightarrow> bool" where
  "balanced acc \<longleftrightarrow>
     st_scanned_supported (snd acc) = length (fst acc) + st_skipped_no_duration (snd acc)"

text \<open>The song that an index item puts into the buckets, if any, and the songs of an
  index in its order.\<close>

definition song_of :: "index_item \<Rightarrow> song option" where
  "song_of it =
     (case (norm_text (it_title it), norm_text (it_artist it), it_duration it, it_path it) of
        (Some t, Some a, Some dur, Some p) \<Rightarrow>
          if p = [] then None else Some \<lparr>title = t, artist = a, duration = dur, path = p\<rparr>
      | _ \<Rightarrow> None)"

definition songs :: "index_item list \<Rightarrow> song list" where
  "songs music_index = List.map_filter song_of music_index"

definition bucket :: "(int \<rightharpoonup> song list) \<Rightarrow> int \<Rightarrow> song list" where
  "bucket by_dur d = (case by_dur d of None \<Rightarrow> [] | Some l \<Rightarrow> l)"

text \<open>Example index: an item without an artist, as the scan writes it for a tagged title
  in a folder whose names give no artist guess; two items with the same title, artist
  and duration; items at the edges of the duration window.\<close>

definition ex_no_artist :: index_item where
  "ex_no_artist =
     \<lparr>it_path = Some (py ''/m/a.mp3''), it_duration = Some 200, it_title = Some (py ''Song''),
      it_artist = None, it_meta_source = py ''easy_tag''\<rparr>"

definition ex_item :: "string \<Rightarrow> int \<Rightarrow> index_item" where
  "ex_item p d =
     \<lparr>it_path = Some (py p), it_duration = Some d, it_title = Some (py ''Song''),
      it_artist = Some (py ''Band''), it_meta_source = py ''easy_tag''\<rparr>"

definition ex_song :: "string \<Rightarrow> int \<Rightarrow> song" where
  "ex_song p d = \<lparr>title = py ''song'', artist = py ''band'', duration = d, path = py p\<rparr>"

definition ex_window_index :: "index_item list" where
  "ex_window_index =
     [ex_item ''/m/d197.mp3'' 197, ex_item ''/m/d198.mp3'' 198, ex_item ''/m/d202.mp3'' 202,
      ex_item ''/m/d203.mp3'' 203]"

text \<open>Example report rows as \<open>_read_report_rows\<close> yields them for the report that
  \<open>repair_playlist\<close> writes: the first row of a report, with a given status and written
  path, and candidate paths in its notes.\<close>

definition ex_row :: "string \<Rightarrow> string \<Rightarrow> csv_row" where
  "ex_row st written =
     read_row 0
       (map_of [(py ''status'', py st), (py ''extinf_duration'', py ''200''),
                (py ''extinf_display'', py ''Band - Song''), (py ''original_path'', py ''/old/a.mp3''),
                (py ''written_path'', py written), (py ''notes'', py ''/m/x.mp3 | /m/y.mp3'')])"

text \<open>The columns that \<open>export_fixed_multi\<close> reads for the path line of a row.\<close>

definition PATH_COLUMNS :: "string list" where
  "PATH_COLUMNS = FINAL_KEYS @ [''row_index'', ''original_path'', ''original'', ''status'']"

text \<open>Example playlists: one whose entry exists on disk, and one whose entry is broken.\<close>

definition ex_playlist :: "pystr list" where
  "ex_playlist =
     [py ''#EXTM3U'' @ [10], py ''#EXTINF:200,Band - Song'' @ [10], py ''/m/a.mp3'' @ [10]]"

definition ex_broken_playlist :: "pystr list" where
  "ex_broken_playlist = [py ''#EXTINF:200,Band - Song'' @ [10], py ''/old/a.mp3'' @ [10]]"

text \<open>An index that holds the same file twice, as a scan of two overlapping roots
  writes it.\<close>

definition ex_dup_index :: "index_item list" where
  "ex_dup_index = [ex_item ''/m/a.mp3'' 200, ex_item ''/m/a.mp3'' 200]"

text \<open>A tagged file \<open>/m/a.mp3\<close>, which the walks of the overlapping roots \<open>/\<close> and
  \<open>/m\<close> both find.\<close>

definition ex_band_file :: file_entry where
  "ex_band_file =
     \<lparr>fe_dirpath = py ''/m'', fe_name = py ''a.mp3'',
      fe_easy = Returns (Some \<lparr>au_truth = True, au_duration = Some 200,
                               au_title = Some (py ''Song''), au_artist = Some (py ''Band'')\<rparr>),
      fe_raw = Raises\<rparr>"


text \<open>The two ways in which the pattern matches at the head of a string.\<close>

definition match5 :: "pystr \<Rightarrow> bool" where
  "match5 s \<longleftrightarrow>
     (\<exists>x1 x2 x3 x4 w r. s = x1 # x2 # x3 # x4 # 46 # w # r \<and> lower_cp x1 = 102 \<and>
        lower_cp x2 = 101 \<and> lower_cp x3 = 97 \<and> lower_cp x4 = 116 \<and> is_word w)"

definition match3 :: "pystr \<Rightarrow> bool" where
  "match3 s \<longleftrightarrow>
     (\<exists>x1 x2 w r. s = x1 # x2 # 46 # w # r \<and> lower_cp x1 = 102 \<and> lower_cp x2 = 116 \<and> is_word w)"




text \<open>The path lines of the EXTINF units of a playlist, as the loop pairs the lines.\<close>

fun unit_paths :: "pystr list \<Rightarrow> pystr list" where
  "unit_paths [] = []"
| "unit_paths [l] = []"
| "unit_paths (l # p # rest) =
     (if startswith (rstrip_nl l) (py ''#EXTINF'') then rstrip_nl p # unit_paths rest
      else unit_paths (p # rest))"

text \<open>All rows so far are KEPT, and the counters say so.\<close>

definition all_kept :: "repair_state \<Rightarrow> bool" where
  "all_kept st \<longleftrightarrow>
     list_all (\<lambda>r. r_status r = py ''KEPT'' \<and> r_written_path r = r_original_path r) (report_rows st) \<and>
     kept st = total_count st \<and> total_count st = length (report_rows st) \<and>
     repaired st = 0 \<and> ambiguous st = 0 \<and> failed st = 0"


section \<open>Evaluation and basic facts\<close>

lemmas str_defs = py_def isspace_def lstrip_def rstrip_def strip_def lower_cp_def lower_def
  upper_cp_def upper_def startswith_def endswith_def

lemmas key_defs = canonical_key_def stripped_stem_def path_stem_def KEY_PREFIXES_def
  KEY_SUFFIXES_def strip_prefix_def strip_suffix_def

lemma strip_Nil [simp]: "strip [] = []"
  by (simp add: strip_def lstrip_def rstrip_def)

section \<open>The canonical key\<close>

text \<open>
  C8: the canonical key collapses the generated file names of a playlist to one
  identity: the keys of \<open>15.m3u\<close>, \<open>fixed_15.m3u\<close>, \<open>fixed_15_selected.m3u\<close> and
  \<open>__tmp_fixed_15.m3u\<close> are all \<open>15\<close>; and whenever stripping the prefixes and the
  suffix leaves the empty string, the key is the original stem.
\<close>

theorem canonical_key_collapses:
  "canonical_key (py ''15.m3u'') = py ''15'' \<and>
   canonical_key (py ''fixed_15.m3u'') = py ''15'' \<and>
   canonical_key (py ''fixed_15_selected.m3u'') = py ''15'' \<and>
   canonical_key (py ''__tmp_fixed_15.m3u'') = py ''15'' \<and>
   (\<forall>name. stripped_stem name = [] \<longrightarrow> canonical_key name = path_stem name)"
proof (intro conjI allI impI)
  show "canonical_key (py ''15.m3u'') = py ''15''"
    by (simp add: key_defs str_defs)
  show "canonical_key (py ''fixed_15.m3u'') = py ''15''"
    by (simp add: key_defs str_defs)
  show "canonical_key (py ''fixed_15_selected.m3u'') = py ''15''"
    by (simp add: key_defs str_defs)
  show "canonical_key (py ''__tmp_fixed_15.m3u'') = py ''15''"
    by (simp add: key_defs str_defs)
next
  fix name
  assume "stripped_stem name = []"
  then show "canonical_key name = path_stem name"
    by (simp add: canonical_key_def)
qed

theorem canonical_key_collapses_witness:
  "stripped_stem (py ''fixed_.m3u'') = [] \<and>
   canonical_key (py ''fixed_.m3u'') = py ''fixed_''"
proof -
  have h: "stripped_stem (py ''fixed_.m3u'') = []"
    by (simp add: key_defs str_defs)
  have s: "path_stem (py ''fixed_.m3u'') = py ''fixed_''"
    by (simp add: key_defs str_defs)
  from canonical_key_collapses have "stripped_stem (py ''fixed_.m3u'') = [] \<longrightarrow>
      canonical_key (py ''fixed_.m3u'') = path_stem (py ''fixed_.m3u'')"
    by blast
  with h s show ?thesis
    by simp
qed


section \<open>Status classification\<close>

lemmas status_defs = classify_status_def norm_status_def any_in_def RESOLVED_KEYWORDS_def
  AMBIGUOUS_KEYWORDS_def FAILED_KEYWORDS_def

lemma any_in_Nil:
  "\<not> any_in RESOLVED_KEYWORDS []" "\<not> any_in AMBIGUOUS_KEYWORDS []" "\<not> any_in FAILED_KEYWORDS []"
  by (simp_all add: status_defs py_def)

lemma kind_distinct:
  "py ''RESOLVED'' \<noteq> py ''AMBIGUOUS''" "py ''RESOLVED'' \<noteq> py ''FAILED''"
  "py ''AMBIGUOUS'' \<noteq> py ''FAILED''" "py ''RESOLVED'' \<noteq> []" "py ''AMBIGUOUS'' \<noteq> []"
  "py ''FAILED'' \<noteq> []"
  by (simp_all add: py_def)

lemma isspace_upper_cp [simp]: "isspace (upper_cp c) \<longleftrightarrow> isspace c"
  by (auto simp: isspace_def upper_cp_def)

lemma isspace_lower_cp [simp]: "isspace (lower_cp c) \<longleftrightarrow> isspace c"
  by (auto simp: isspace_def lower_cp_def)



lemma upper_cp_idem [simp]: "upper_cp (upper_cp c) = upper_cp c"
  by (auto simp: upper_cp_def)

lemma upper_cp_lower_cp [simp]: "upper_cp (lower_cp c) = upper_cp c"
  by (auto simp: upper_cp_def lower_cp_def)









section \<open>Accounting of the scan\<close>

lemma scan_file_unsupported: "\<not> supported f \<Longrightarrow> scan_file h st f = st"
  by (simp add: scan_file_def supported_def)

lemma scan_file_supported:
  assumes "supported f"
  shows "scanned (scan_file h st f) = scanned st + 1 \<and>
         (length (items (scan_file h st f)) = length (items st) + 1 \<and>
            skipped_no_duration (scan_file h st f) = skipped_no_duration st \<or>
          items (scan_file h st f) = items st \<and>
            skipped_no_duration (scan_file h st f) = skipped_no_duration st + 1)"
  using assms by (simp add: scan_file_def supported_def Let_def split: option.split)

lemma opened_Raises: "opened Raises = None"
  by (simp add: opened_def)

lemma scan_file_raises:
  assumes "supported f" and "fe_easy f = Raises" and "fe_raw f = Raises"
  shows "items (scan_file h st f) = items st \<and>
         skipped_no_duration (scan_file h st f) = skipped_no_duration st + 1"
  using assms
  by (simp add: scan_file_def supported_def Let_def read_easy_def read_raw_def opened_Raises)

lemma scan_file_balance:
  "scanned (scan_file h st f) + length (items st) + skipped_no_duration st =
     scanned st + length (items (scan_file h st f)) + skipped_no_duration (scan_file h st f) \<and>
   scanned (scan_file h st f) = scanned st + (if supported f then 1 else 0)"
proof (cases "supported f")
  case True
  from scan_file_supported [OF True, of h st] show ?thesis
    using True by auto
next
  case False
  then show ?thesis
    by (simp add: scan_file_unsupported)
qed

lemma scan_fold_balance:
  "scanned (foldl (scan_file h) st files) + length (items st) + skipped_no_duration st =
     scanned st + length (items (foldl (scan_file h) st files)) +
     skipped_no_duration (foldl (scan_file h) st files) \<and>
   scanned (foldl (scan_file h) st files) = scanned st + length (filter supported files)"
proof (induction files arbitrary: st)
  case Nil
  show ?case by simp
next
  case (Cons f files)
  let ?st = "scan_file h st f"
  let ?end = "foldl (scan_file h) ?st files"
  have step: "scanned ?st + length (items st) + skipped_no_duration st =
      scanned st + length (items ?st) + skipped_no_duration ?st"
    and count: "scanned ?st = scanned st + (if supported f then 1 else 0)"
    using scan_file_balance [of h st f] by blast+
  have rest: "scanned ?end + length (items ?st) + skipped_no_duration ?st =
      scanned ?st + length (items ?end) + skipped_no_duration ?end"
    and rest_count: "scanned ?end = scanned ?st + length (filter supported files)"
    using Cons.IH [of ?st] by blast+
  have "scanned ?end + length (items st) + skipped_no_duration st =
      scanned st + length (items ?end) + skipped_no_duration ?end"
    using step rest by linarith
  moreover have "scanned ?end = scanned st + length (filter supported (f # files))"
    using count rest_count by simp
  ultimately show ?case
    by simp
qed

lemma scan_folder_balance:
  "sr_scanned_supported (scan_folder h root_dir files) =
     sr_indexed (scan_folder h root_dir files) + sr_skipped_no_duration (scan_folder h root_dir files) \<and>
   sr_indexed (scan_folder h root_dir files) = length (sr_items (scan_folder h root_dir files)) \<and>
   sr_scanned_supported (scan_folder h root_dir files) = length (filter supported files)"
  using scan_fold_balance [of h "\<lparr>items = [], scanned = 0, skipped_no_duration = 0\<rparr>" files]
  by (simp add: scan_folder_def Let_def)

lemma add_root_balanced: "balanced acc \<Longrightarrow> balanced (add_root h acc r)"
  using scan_folder_balance [of h "fst r" "snd r"]
  by (cases acc) (simp add: balanced_def add_root_def Let_def)

lemma fold_add_root_balanced: "balanced acc \<Longrightarrow> balanced (foldl (add_root h) acc roots)"
  by (induction roots arbitrary: acc) (simp_all add: add_root_balanced)

lemma scan_roots_balanced:
  "balanced acc \<Longrightarrow> scan_roots h cancel i roots acc = Some res \<Longrightarrow> balanced res"
proof (induction roots arbitrary: acc i)
  case Nil
  then show ?case by simp
next
  case (Cons r roots)
  from Cons.prems(2) have "\<not> cancel i"
    and "scan_roots h cancel (Suc i) roots (add_root h acc r) = Some res"
    by (simp_all split: if_splits)
  with Cons.IH [OF add_root_balanced [OF Cons.prems(1)]] show ?case
    by blast
qed

lemma balanced_init:
  "balanced ([], \<lparr>st_roots = [], st_scanned_supported = 0, st_skipped_no_duration = 0, st_indexed = 0\<rparr>)"
  by (simp add: balanced_def)

text \<open>
  C10: in a scan, every file with a supported extension counts once in
  \<open>scanned_supported\<close> and then either adds exactly one item to the index or adds
  exactly one to \<open>skipped_no_duration\<close>, also when reading its metadata raises (then it
  is skipped for its missing duration). So the statistics that \<open>scan_folder\<close> returns
  satisfy \<open>scanned_supported = indexed + skipped_no_duration\<close>, and so do the summed
  statistics of \<open>scan_multiple_roots\<close> and of the runner's \<open>scan_index\<close> when it is not
  cancelled.
\<close>

theorem scan_accounting:
  "(\<forall>h st f. supported f \<longrightarrow>
      scanned (scan_file h st f) = scanned st + 1 \<and>
      (length (items (scan_file h st f)) = length (items st) + 1 \<and>
         skipped_no_duration (scan_file h st f) = skipped_no_duration st \<or>
       items (scan_file h st f) = items st \<and>
         skipped_no_duration (scan_file h st f) = skipped_no_duration st + 1)) \<and>
   (\<forall>h st f. supported f \<and> fe_easy f = Raises \<and> fe_raw f = Raises \<longrightarrow>
      items (scan_file h st f) = items st \<and>
      skipped_no_duration (scan_file h st f) = skipped_no_duration st + 1) \<and>
   (\<forall>h root_dir files.
      sr_scanned_supported (scan_folder h root_dir files) =
        sr_indexed (scan_folder h root_dir files) +
        sr_skipped_no_duration (scan_folder h root_dir files) \<and>
      sr_indexed (scan_folder h root_dir files) = length (sr_items (scan_folder h root_dir files)) \<and>
      sr_scanned_supported (scan_folder h root_dir files) = length (filter supported files)) \<and>
   (\<forall>h roots.
      st_scanned_supported (snd (scan_multiple_roots h roots)) =
        st_indexed (snd (scan_multiple_roots h roots)) +
        st_skipped_no_duration (snd (scan_multiple_roots h roots)) \<and>
      st_indexed (snd (scan_multiple_roots h roots)) = length (fst (scan_multiple_roots h roots))) \<and>
   (\<forall>h cancel roots combined stats.
      scan_index h cancel roots = Some (combined, stats) \<longrightarrow>
        st_scanned_supported stats = st_indexed stats + st_skipped_no_duration stats \<and>
        st_indexed stats = length combined)"
proof (intro conjI allI impI)
  fix h st f
  assume "supported f"
  then show "scanned (scan_file h st f) = scanned st + 1"
    and "length (items (scan_file h st f)) = length (items st) + 1 \<and>
         skipped_no_duration (scan_file h st f) = skipped_no_duration st \<or>
       items (scan_file h st f) = items st \<and>
         skipped_no_duration (scan_file h st f) = skipped_no_duration st + 1"
    using scan_file_supported [of f h st] by blast+
next
  fix h st f
  assume a: "supported f \<and> fe_easy f = Raises \<and> fe_raw f = Raises"
  then show "items (scan_file h st f) = items st"
    and "skipped_no_duration (scan_file h st f) = skipped_no_duration st + 1"
    using scan_file_raises [of f h st] by blast+
next
  fix h root_dir files
  show "sr_scanned_supported (scan_folder h root_dir files) =
        sr_indexed (scan_folder h root_dir files) +
        sr_skipped_no_duration (scan_folder h root_dir files)"
    and "sr_indexed (scan_folder h root_dir files) = length (sr_items (scan_folder h root_dir files))"
    and "sr_scanned_supported (scan_folder h root_dir files) = length (filter supported files)"
    using scan_folder_balance [of h root_dir files] by blast+
next
  fix h roots
  obtain combined stats where f: "foldl (add_root h)
      ([], \<lparr>st_roots = [], st_scanned_supported = 0, st_skipped_no_duration = 0, st_indexed = 0\<rparr>) roots =
      (combined, stats)"
    by fastforce
  have "balanced (combined, stats)"
    using fold_add_root_balanced [OF balanced_init, of h roots] f by simp
  moreover have m: "scan_multiple_roots h roots = (combined, stats\<lparr>st_indexed := length combined\<rparr>)"
    by (simp add: scan_multiple_roots_def f)
  ultimately show "st_scanned_supported (snd (scan_multiple_roots h roots)) =
        st_indexed (snd (scan_multiple_roots h roots)) +
        st_skipped_no_duration (snd (scan_multiple_roots h roots))"
    by (simp add: balanced_def)
  from m show "st_indexed (snd (scan_multiple_roots h roots)) = length (fst (scan_multiple_roots h roots))"
    by simp
next
  fix h cancel roots combined stats
  assume s: "scan_index h cancel roots = Some (combined, stats)"
  then obtain st0 where r: "scan_roots h cancel 0 roots
      ([], \<lparr>st_roots = [], st_scanned_supported = 0, st_skipped_no_duration = 0, st_indexed = 0\<rparr>) =
      Some (combined, st0)" and e: "stats = st0\<lparr>st_indexed := length combined\<rparr>"
    by (auto simp: scan_index_def split: option.splits)
  from scan_roots_balanced [OF balanced_init r] e
  show "st_scanned_supported stats = st_indexed stats + st_skipped_no_duration stats"
    by (simp add: balanced_def)
  from e show "st_indexed stats = length combined"
    by simp
qed

lemmas scan_defs = scan_index_def add_root_def scan_folder_def scan_file_def read_easy_def
  read_raw_def opened_def fill_title_def fill_artist_def path_suffix_def path_stem_def
  SUPPORTED_EXTS_def supported_def truthy_def guess_artist_from_path_def normalize_token_def
  GENERIC_PATH_TOKENS_def is_year_def is_digit_def

lemmas ex_scan_defs = ex_helpers_def ex_tagged_def ex_raising_def ex_text_def

theorem scan_accounting_witness:
  "supported ex_raising \<and> fe_easy ex_raising = Raises \<and> fe_raw ex_raising = Raises \<and>
   scanned (scan_file ex_helpers \<lparr>items = [], scanned = 0, skipped_no_duration = 0\<rparr> ex_raising) = 1 \<and>
   skipped_no_duration
     (scan_file ex_helpers \<lparr>items = [], scanned = 0, skipped_no_duration = 0\<rparr> ex_raising) = 1 \<and>
   (\<exists>combined stats.
      scan_index ex_helpers (\<lambda>i. False) [(py ''/m'', [ex_tagged, ex_raising, ex_text])] =
        Some (combined, stats) \<and>
      length combined = 1 \<and> st_skipped_no_duration stats = 1 \<and> st_scanned_supported stats = 2)"
proof -
  let ?st = "\<lparr>items = [], scanned = 0, skipped_no_duration = 0\<rparr>"
  have h: "supported ex_raising \<and> fe_easy ex_raising = Raises \<and> fe_raw ex_raising = Raises"
    by (simp add: scan_defs ex_scan_defs str_defs)
  with scan_accounting have
    "scanned (scan_file ex_helpers ?st ex_raising) = scanned ?st + 1"
    "skipped_no_duration (scan_file ex_helpers ?st ex_raising) = skipped_no_duration ?st + 1"
    by blast+
  then have one: "scanned (scan_file ex_helpers ?st ex_raising) = 1"
    "skipped_no_duration (scan_file ex_helpers ?st ex_raising) = 1"
    by simp_all
  have "map_option (\<lambda>(c, s). (length c, st_skipped_no_duration s))
      (scan_index ex_helpers (\<lambda>i. False) [(py ''/m'', [ex_tagged, ex_raising, ex_text])]) =
      Some (1, 1)"
    by (simp add: scan_defs ex_scan_defs str_defs Let_def)
  then obtain c s where
    e: "scan_index ex_helpers (\<lambda>i. False) [(py ''/m'', [ex_tagged, ex_raising, ex_text])] = Some (c, s)"
    and v: "length c = 1" "st_skipped_no_duration s = 1"
    by auto
  from scan_accounting e have
    "st_scanned_supported s = st_indexed s + st_skipped_no_duration s \<and> st_indexed s = length c"
    by blast
  with v have "st_scanned_supported s = 2"
    by simp
  with h one e v show ?thesis
    by blast
qed


text \<open>Examples of the helpers of the scan: a track prefix is removed from a file name, a
  four-digit number is not; a tagged title without an artist tag, in a folder whose name
  gives no artist guess, is indexed without an artist.\<close>

lemmas title_defs = clean_filename_title_def track_prefix_sub_def track_group_def is_track_sep_def
  is_digit_def

lemma clean_filename_title_examples:
  "clean_filename_title (py ''01 - (2) Song  Name'') = py ''Song Name''"
  "clean_filename_title (py ''2024 Song'') = py ''2024 Song''"
  by (simp_all add: title_defs str_defs track_groups.simps)

lemma scan_ex_tagged:
  "sr_items (scan_folder ex_helpers (py ''/'') [ex_tagged]) = [ex_no_artist]"
  by (simp add: scan_defs ex_helpers_def ex_tagged_def ex_no_artist_def str_defs Let_def)


section \<open>Token similarity\<close>

lemmas token_defs = tokens_def is_sep_def jaccard_def

lemma finite_tokens [simp]: "finite (tokens a)"
  by (simp add: tokens_def split: option.split)

lemma tokens_not_truthy: "\<not> truthy a \<Longrightarrow> tokens a = {}"
  by (auto simp: truthy_def tokens_def split: option.split)

lemma jaccard_commute: "jaccard a b = jaccard b a"
  by (simp add: jaccard_def Let_def Int_commute Un_commute disj_commute)

lemma jaccard_self: 
  assumes "tokens x \<noteq> {}"
  shows "jaccard x x = 1"
proof -
  from assms have "card (tokens x) \<noteq> 0"
    by simp
  with assms show ?thesis
    by (simp add: jaccard_def Let_def)
qed

lemma jaccard_no_tokens: "tokens a = {} \<or> tokens b = {} \<Longrightarrow> jaccard a b = 0"
  by (auto simp: jaccard_def Let_def)

text \<open>A non-empty string of separators has no token, and its similarity to itself is
  0, not 1.\<close>

theorem jaccard_self_counterexample:
  "py ''-'' \<noteq> [] \<and> jaccard (Some (py ''-'')) (Some (py ''-'')) = 0 \<and>
   jaccard (Some (py ''-'')) (Some (py ''-'')) \<noteq> 1"
  by (simp add: token_defs str_defs)

text \<open>
  C7, amended: \<open>jaccard\<close> is symmetric; \<open>jaccard(x, x)\<close> is 1 for every string \<open>x\<close> that
  has at least one token (a string made of separators only, such as \<open>-\<close>, has none and
  gives 0); and \<open>jaccard(a, b)\<close> is 0 whenever \<open>a\<close> or \<open>b\<close> is empty or absent, and more
  generally whenever one of them has no token.
\<close>

theorem jaccard_properties:
  "(\<forall>a b. jaccard a b = jaccard b a) \<and>
   (\<forall>x. tokens x \<noteq> {} \<longrightarrow> jaccard x x = 1) \<and>
   (\<forall>a b. \<not> truthy a \<or> \<not> truthy b \<longrightarrow> jaccard a b = 0) \<and>
   (\<forall>a b. tokens a = {} \<or> tokens b = {} \<longrightarrow> jaccard a b = 0)"
  using jaccard_commute jaccard_self jaccard_no_tokens tokens_not_truthy
  by blast

theorem jaccard_properties_witness:
  "tokens (Some (py ''a b'')) \<noteq> {} \<and> jaccard (Some (py ''a b'')) (Some (py ''a b'')) = 1 \<and>
   \<not> truthy (Some []) \<and> jaccard (Some []) (Some (py ''a b'')) = 0 \<and>
   \<not> truthy None \<and> jaccard (Some (py ''a b'')) None = 0 \<and>
   tokens (Some (py ''-'')) = {} \<and> jaccard (Some (py ''-'')) (Some (py ''-'')) = 0"
proof -
  have t: "tokens (Some (py ''a b'')) \<noteq> {}" "tokens (Some (py ''-'')) = {}"
    by (simp_all add: token_defs str_defs)
  have n: "\<not> truthy (Some [])" "\<not> truthy None"
    by (simp_all add: truthy_def)
  from t n jaccard_properties show ?thesis
    by blast
qed


section \<open>Duration buckets and candidates\<close>

lemma add_item_song_of:
  "add_item m it =
     (case song_of it of None \<Rightarrow> m | Some s \<Rightarrow> m(duration s \<mapsto> bucket m (duration s) @ [s]))"
  by (simp add: add_item_def song_of_def bucket_def split: option.split)

lemma bucket_add_item:
  "bucket (add_item m it) d =
     bucket m d @ (case song_of it of None \<Rightarrow> [] | Some s \<Rightarrow> if duration s = d then [s] else [])"
  by (simp add: add_item_song_of bucket_def split: option.split)

lemma bucket_foldl:
  "bucket (foldl add_item m idx) d = bucket m d @ filter (\<lambda>s. duration s = d) (songs idx)"
proof (induction idx arbitrary: m)
  case Nil
  show ?case by (simp add: songs_def List.map_filter_simps)
next
  case (Cons it idx)
  show ?case
    by (simp add: Cons.IH bucket_add_item songs_def List.map_filter_simps split: option.split)
qed

lemma bucket_build: "bucket (build_by_dur idx) d = filter (\<lambda>s. duration s = d) (songs idx)"
  by (simp add: build_by_dur_def bucket_foldl) (simp add: bucket_def)

lemma candidates_buckets:
  "candidates (build_by_dur idx) tol d =
     concat (map (\<lambda>k. filter (\<lambda>s. duration s = k) (songs idx)) [d - tol..d + tol])"
  by (simp add: candidates_def bucket_build [symmetric] bucket_def)

lemma set_candidates:
  "set (candidates (build_by_dur idx) tol d) =
     {s \<in> set (songs idx). d - tol \<le> duration s \<and> duration s \<le> d + tol}"
  by (auto simp: candidates_buckets)

lemma count_concat: "count_list (concat xss) x = sum_list (map (\<lambda>xs. count_list xs x) xss)"
  by (induction xss) simp_all

lemma count_filter: "count_list (filter P xs) x = (if P x then count_list xs x else 0)"
  by (induction xs) auto

lemma sum_list_upto_single:
  "sum_list (map (\<lambda>k. if j = k then (c::nat) else 0) [lo..hi]) = (if lo \<le> j \<and> j \<le> hi then c else 0)"
proof (induction lo hi rule: upto.induct)
  case (1 i j')
  show ?case
  proof (cases "i \<le> j'")
    case True
    with 1 show ?thesis
      by (subst upto.simps) auto
  next
    case False
    then show ?thesis by simp
  qed
qed

lemma count_candidates:
  "count_list (candidates (build_by_dur idx) tol d) s =
     (if d - tol \<le> duration s \<and> duration s \<le> d + tol then count_list (songs idx) s else 0)"
  by (simp add: candidates_buckets count_concat comp_def count_filter sum_list_upto_single)

lemma norm_text_nonempty: "norm_text x = Some t \<Longrightarrow> t \<noteq> []"
  by (auto simp: norm_text_def Let_def split: option.splits if_splits)

lemma song_of_fields:
  assumes "song_of it = Some s"
  shows "norm_text (it_title it) = Some (title s) \<and> norm_text (it_artist it) = Some (artist s) \<and>
         it_duration it = Some (duration s) \<and> it_path it = Some (path s) \<and>
         title s \<noteq> [] \<and> artist s \<noteq> [] \<and> path s \<noteq> []"
  using assms
  by (auto simp: song_of_def split: option.splits if_splits dest: norm_text_nonempty)

lemma songs_iff: "s \<in> set (songs idx) \<longleftrightarrow> (\<exists>it \<in> set idx. song_of it = Some s)"
  by (induction idx) (auto simp: songs_def List.map_filter_simps split: option.splits)

lemma songs_title_nonempty: "s \<in> set (songs idx) \<Longrightarrow> title s \<noteq> []"
  by (auto simp: songs_iff dest: song_of_fields)

lemmas norm_defs = norm_text_def replace1_def sub_class_def DASHES_def BAD_PUNCT_def is_word_def
  word_at_def word_boundary_def feat_match_def is_open_def is_close_def

lemmas index_defs = build_by_dur_def add_item_def candidates_def ex_no_artist_def ex_item_def
  ex_song_def

lemma song_of_ex_item [simp]: "song_of (ex_item p d) = (if p = [] then None else Some (ex_song p d))"
  by (simp add: song_of_def ex_item_def ex_song_def norm_defs str_defs)

lemma song_of_ex_no_artist [simp]: "song_of ex_no_artist = None"
  by (simp add: song_of_def ex_no_artist_def norm_defs str_defs)

text \<open>An index item without an artist is in no bucket, so it is no candidate even at the
  query's own duration.\<close>

theorem candidates_counterexample:
  "sr_items (scan_folder ex_helpers (py ''/'') [ex_tagged]) = [ex_no_artist] \<and>
   it_duration ex_no_artist = Some 200 \<and> candidates (build_by_dur [ex_no_artist]) 2 200 = []"
  by (simp add: scan_ex_tagged candidates_buckets songs_def List.map_filter_simps)
     (simp add: ex_no_artist_def)

text \<open>
  C2, amended: the candidates of \<open>find_matches\<close> for a query duration \<open>d\<close> and a
  tolerance \<open>t\<close> are the songs of the index whose duration lies in the inclusive
  interval from \<open>d - t\<close> to \<open>d + t\<close>, each as often as the index holds it, where the songs
  of the index are its items that have a title and an artist that normalize to a
  non-empty text, a duration and a non-empty path (any other item is in no bucket). So
  a song at distance exactly \<open>t\<close> from \<open>d\<close> is a candidate, one at distance \<open>t + 1\<close> is
  not, and no song inside the interval is left out.
\<close>

theorem candidates_window:
  "(\<forall>idx t d. set (candidates (build_by_dur idx) t d) =
      {s \<in> set (songs idx). d - t \<le> duration s \<and> duration s \<le> d + t}) \<and>
   (\<forall>idx t d s. count_list (candidates (build_by_dur idx) t d) s =
      (if d - t \<le> duration s \<and> duration s \<le> d + t then count_list (songs idx) s else 0)) \<and>
   (\<forall>idx t d s. s \<in> set (songs idx) \<and> \<bar>duration s - d\<bar> = t \<longrightarrow>
      s \<in> set (candidates (build_by_dur idx) t d)) \<and>
   (\<forall>idx t d s. \<bar>duration s - d\<bar> = t + 1 \<longrightarrow>
      s \<notin> set (candidates (build_by_dur idx) t d)) \<and>
   (\<forall>idx s. s \<in> set (songs idx) \<longleftrightarrow>
      (\<exists>it \<in> set idx.
         norm_text (it_title it) = Some (title s) \<and> norm_text (it_artist it) = Some (artist s) \<and>
         it_duration it = Some (duration s) \<and> it_path it = Some (path s) \<and> path s \<noteq> []))"
proof (intro conjI allI impI)
  fix idx t d
  show "set (candidates (build_by_dur idx) t d) =
      {s \<in> set (songs idx). d - t \<le> duration s \<and> duration s \<le> d + t}"
    by (rule set_candidates)
next
  fix idx t d s
  show "count_list (candidates (build_by_dur idx) t d) s =
      (if d - t \<le> duration s \<and> duration s \<le> d + t then count_list (songs idx) s else 0)"
    by (rule count_candidates)
next
  fix idx t d s
  assume "s \<in> set (songs idx) \<and> \<bar>duration s - d\<bar> = t"
  then show "s \<in> set (candidates (build_by_dur idx) t d)"
    by (auto simp: set_candidates)
next
  fix idx t d and s :: song
  assume "\<bar>duration s - d\<bar> = t + 1"
  then show "s \<notin> set (candidates (build_by_dur idx) t d)"
    by (auto simp: set_candidates)
next
  fix idx s
  show "s \<in> set (songs idx) \<longleftrightarrow>
      (\<exists>it \<in> set idx.
         norm_text (it_title it) = Some (title s) \<and> norm_text (it_artist it) = Some (artist s) \<and>
         it_duration it = Some (duration s) \<and> it_path it = Some (path s) \<and> path s \<noteq> [])"
  proof
    assume "s \<in> set (songs idx)"
    then obtain it where "it \<in> set idx" "song_of it = Some s"
      by (auto simp: songs_iff)
    then show "\<exists>it \<in> set idx.
         norm_text (it_title it) = Some (title s) \<and> norm_text (it_artist it) = Some (artist s) \<and>
         it_duration it = Some (duration s) \<and> it_path it = Some (path s) \<and> path s \<noteq> []"
      using song_of_fields [of it s] by blast
  next
    assume "\<exists>it \<in> set idx.
         norm_text (it_title it) = Some (title s) \<and> norm_text (it_artist it) = Some (artist s) \<and>
         it_duration it = Some (duration s) \<and> it_path it = Some (path s) \<and> path s \<noteq> []"
    then obtain it where i: "it \<in> set idx" and f: "norm_text (it_title it) = Some (title s)"
      "norm_text (it_artist it) = Some (artist s)" "it_duration it = Some (duration s)"
      "it_path it = Some (path s)" "path s \<noteq> []"
      by blast
    from f have "song_of it = Some s"
      by (simp add: song_of_def)
    with i show "s \<in> set (songs idx)"
      by (auto simp: songs_iff)
  qed
qed

lemma songs_ex_window_index:
  "songs ex_window_index =
     [ex_song ''/m/d197.mp3'' 197, ex_song ''/m/d198.mp3'' 198, ex_song ''/m/d202.mp3'' 202,
      ex_song ''/m/d203.mp3'' 203]"
  by (simp add: ex_window_index_def songs_def List.map_filter_simps)

theorem candidates_window_witness:
  "ex_song ''/m/d202.mp3'' 202 \<in> set (songs ex_window_index) \<and>
   \<bar>duration (ex_song ''/m/d202.mp3'' 202) - 200\<bar> = DUR_TOL_DEFAULT \<and>
   ex_song ''/m/d202.mp3'' 202 \<in> set (candidates (build_by_dur ex_window_index) DUR_TOL_DEFAULT 200) \<and>
   ex_song ''/m/d198.mp3'' 198 \<in> set (songs ex_window_index) \<and>
   \<bar>duration (ex_song ''/m/d198.mp3'' 198) - 200\<bar> = DUR_TOL_DEFAULT \<and>
   ex_song ''/m/d198.mp3'' 198 \<in> set (candidates (build_by_dur ex_window_index) DUR_TOL_DEFAULT 200) \<and>
   \<bar>duration (ex_song ''/m/d203.mp3'' 203) - 200\<bar> = DUR_TOL_DEFAULT + 1 \<and>
   ex_song ''/m/d203.mp3'' 203 \<notin> set (candidates (build_by_dur ex_window_index) DUR_TOL_DEFAULT 200) \<and>
   \<bar>duration (ex_song ''/m/d197.mp3'' 197) - 200\<bar> = DUR_TOL_DEFAULT + 1 \<and>
   ex_song ''/m/d197.mp3'' 197 \<notin> set (candidates (build_by_dur ex_window_index) DUR_TOL_DEFAULT 200)"
proof -
  have m: "ex_song ''/m/d202.mp3'' 202 \<in> set (songs ex_window_index)"
    "ex_song ''/m/d198.mp3'' 198 \<in> set (songs ex_window_index)"
    by (simp_all add: songs_ex_window_index)
  have d: "\<bar>duration (ex_song ''/m/d202.mp3'' 202) - 200\<bar> = DUR_TOL_DEFAULT"
    "\<bar>duration (ex_song ''/m/d198.mp3'' 198) - 200\<bar> = DUR_TOL_DEFAULT"
    "\<bar>duration (ex_song ''/m/d203.mp3'' 203) - 200\<bar> = DUR_TOL_DEFAULT + 1"
    "\<bar>duration (ex_song ''/m/d197.mp3'' 197) - 200\<bar> = DUR_TOL_DEFAULT + 1"
    by (simp_all add: ex_song_def DUR_TOL_DEFAULT_def)
  from m d candidates_window show ?thesis
    by blast
qed

section \<open>The tiers of the matcher\<close>

lemma exact_truthy:
  assumes "s \<in> set (candidates (build_by_dur idx) tol d)" and "is_exact title_n artist_n s"
  shows "truthy title_n"
proof -
  from assms(1) have "s \<in> set (songs idx)"
    by (simp add: set_candidates)
  then have "title s \<noteq> []"
    by (rule songs_title_nonempty)
  with assms(2) show ?thesis
    by (auto simp: is_exact_def truthy_def)
qed

lemma find_matches_exact:
  assumes "filter (is_exact title_n artist_n) (candidates (build_by_dur idx) tol d) \<noteq> []"
  shows "find_matches (build_by_dur idx) tol title_n artist_n d =
           filter (is_exact title_n artist_n) (candidates (build_by_dur idx) tol d)"
proof -
  let ?cand = "candidates (build_by_dur idx) tol d"
  from assms obtain s where s: "s \<in> set ?cand" "is_exact title_n artist_n s"
    by (auto simp: filter_empty_conv)
  then have "truthy title_n"
    by (rule exact_truthy)
  moreover from s have "?cand \<noteq> []"
    by auto
  moreover from assms have "length (filter (is_exact title_n artist_n) ?cand) = 1 \<or>
      length (filter (is_exact title_n artist_n) ?cand) > 1"
    by (cases "filter (is_exact title_n artist_n) ?cand") auto
  ultimately show ?thesis
    by (auto simp: find_matches_def Let_def)
qed

lemma find_matches_fuzzy:
  assumes "filter (is_exact title_n artist_n) (candidates by_dur tol d) = []"
  shows "find_matches by_dur tol title_n artist_n d =
           (if truthy title_n then filter (is_fuzzy title_n artist_n) (candidates by_dur tol d) else [])"
  using assms by (simp add: find_matches_def Let_def)

text \<open>
  C3: for every query (title, artist, duration) against an index, let the exact
  matches be the candidates of the duration window whose normalized title equals the
  query title and, when a query artist is given, whose normalized artist equals it. If
  there is exactly one exact match, \<open>find_matches\<close> returns exactly that song; if there
  are several, it returns all of them and does not consult the fuzzy tier; only when
  there is none does it return the fuzzy matches: the candidates with the same artist
  and a title similarity of at least 0.85 when an artist is given, or with a title
  similarity of at least 0.90 when none is given.
\<close>

theorem find_matches_tiers:
  "(\<forall>idx tol title_n artist_n d e.
      filter (is_exact title_n artist_n) (candidates (build_by_dur idx) tol d) = [e] \<longrightarrow>
      find_matches (build_by_dur idx) tol title_n artist_n d = [e]) \<and>
   (\<forall>idx tol title_n artist_n d.
      length (filter (is_exact title_n artist_n) (candidates (build_by_dur idx) tol d)) > 1 \<longrightarrow>
      find_matches (build_by_dur idx) tol title_n artist_n d =
        filter (is_exact title_n artist_n) (candidates (build_by_dur idx) tol d)) \<and>
   (\<forall>idx tol title_n artist_n d.
      filter (is_exact title_n artist_n) (candidates (build_by_dur idx) tol d) = [] \<longrightarrow>
      find_matches (build_by_dur idx) tol title_n artist_n d =
        (if truthy title_n
         then filter (is_fuzzy title_n artist_n) (candidates (build_by_dur idx) tol d) else [])) \<and>
   (\<forall>title_n artist_n s.
      is_exact title_n artist_n s \<longleftrightarrow>
        Some (title s) = title_n \<and> (artist_n \<noteq> None \<longrightarrow> Some (artist s) = artist_n)) \<and>
   (\<forall>title_n a s.
      is_fuzzy title_n (Some a) s \<longleftrightarrow>
        artist s = a \<and> jaccard (Some (title s)) title_n \<ge> 85 / 100) \<and>
   (\<forall>title_n s.
      is_fuzzy title_n None s \<longleftrightarrow> jaccard (Some (title s)) title_n \<ge> 90 / 100)"
proof (intro conjI allI impI)
  fix idx tol title_n artist_n d e
  assume "filter (is_exact title_n artist_n) (candidates (build_by_dur idx) tol d) = [e]"
  then show "find_matches (build_by_dur idx) tol title_n artist_n d = [e]"
    using find_matches_exact [of title_n artist_n idx tol d] by simp
next
  fix idx tol title_n artist_n d
  assume "length (filter (is_exact title_n artist_n) (candidates (build_by_dur idx) tol d)) > 1"
  then have "filter (is_exact title_n artist_n) (candidates (build_by_dur idx) tol d) \<noteq> []"
    by auto
  then show "find_matches (build_by_dur idx) tol title_n artist_n d =
        filter (is_exact title_n artist_n) (candidates (build_by_dur idx) tol d)"
    by (rule find_matches_exact)
next
  fix idx tol title_n artist_n d
  assume "filter (is_exact title_n artist_n) (candidates (build_by_dur idx) tol d) = []"
  then show "find_matches (build_by_dur idx) tol title_n artist_n d =
        (if truthy title_n
         then filter (is_fuzzy title_n artist_n) (candidates (build_by_dur idx) tol d) else [])"
    by (rule find_matches_fuzzy)
next
  fix title_n artist_n and s :: song
  show "is_exact title_n artist_n s \<longleftrightarrow>
        Some (title s) = title_n \<and> (artist_n \<noteq> None \<longrightarrow> Some (artist s) = artist_n)"
    by (auto simp: is_exact_def)
next
  fix title_n a and s :: song
  show "is_fuzzy title_n (Some a) s \<longleftrightarrow>
        artist s = a \<and> jaccard (Some (title s)) title_n \<ge> 85 / 100"
    by (simp add: is_fuzzy_def)
next
  fix title_n and s :: song
  show "is_fuzzy title_n None s \<longleftrightarrow> jaccard (Some (title s)) title_n \<ge> 90 / 100"
    by (simp add: is_fuzzy_def)
qed


lemma candidates_ex_one:
  "candidates (build_by_dur [ex_item ''/m/a.mp3'' 200]) 2 201 = [ex_song ''/m/a.mp3'' 200]"
  by (simp add: candidates_buckets songs_def List.map_filter_simps) (simp add: ex_song_def)

lemma candidates_ex_two:
  "candidates (build_by_dur [ex_item ''/m/a.mp3'' 200, ex_item ''/m/b.mp3'' 200]) 2 201 =
     [ex_song ''/m/a.mp3'' 200, ex_song ''/m/b.mp3'' 200]"
  by (simp add: candidates_buckets songs_def List.map_filter_simps) (simp add: ex_song_def)

lemma jaccard_ex_dot: "jaccard (Some (py ''song'')) (Some (py ''song.'')) = 1"
  by (simp add: token_defs str_defs)

theorem find_matches_tiers_witness:
  "filter (is_exact (Some (py ''song'')) (Some (py ''band'')))
     (candidates (build_by_dur [ex_item ''/m/a.mp3'' 200]) 2 201) = [ex_song ''/m/a.mp3'' 200] \<and>
   find_matches (build_by_dur [ex_item ''/m/a.mp3'' 200]) 2 (Some (py ''song'')) (Some (py ''band'')) 201 =
     [ex_song ''/m/a.mp3'' 200] \<and>
   length (filter (is_exact (Some (py ''song'')) (Some (py ''band'')))
     (candidates (build_by_dur [ex_item ''/m/a.mp3'' 200, ex_item ''/m/b.mp3'' 200]) 2 201)) > 1 \<and>
   find_matches (build_by_dur [ex_item ''/m/a.mp3'' 200, ex_item ''/m/b.mp3'' 200]) 2
     (Some (py ''song'')) (Some (py ''band'')) 201 =
     [ex_song ''/m/a.mp3'' 200, ex_song ''/m/b.mp3'' 200] \<and>
   filter (is_exact (Some (py ''song.'')) (Some (py ''band'')))
     (candidates (build_by_dur [ex_item ''/m/a.mp3'' 200]) 2 201) = [] \<and>
   find_matches (build_by_dur [ex_item ''/m/a.mp3'' 200]) 2 (Some (py ''song.'')) (Some (py ''band'')) 201 =
     [ex_song ''/m/a.mp3'' 200]"
proof -
  let ?one = "build_by_dur [ex_item ''/m/a.mp3'' 200]"
  let ?two = "build_by_dur [ex_item ''/m/a.mp3'' 200, ex_item ''/m/b.mp3'' 200]"
  note exact_one = find_matches_tiers [THEN conjunct1, rule_format]
  note exact_many = find_matches_tiers [THEN conjunct2, THEN conjunct1, rule_format]
  note fuzzy = find_matches_tiers [THEN conjunct2, THEN conjunct2, THEN conjunct1, rule_format]
  have e1: "filter (is_exact (Some (py ''song'')) (Some (py ''band''))) (candidates ?one 2 201) =
      [ex_song ''/m/a.mp3'' 200]"
    by (simp add: candidates_ex_one is_exact_def ex_song_def)
  have e2: "filter (is_exact (Some (py ''song'')) (Some (py ''band''))) (candidates ?two 2 201) =
      [ex_song ''/m/a.mp3'' 200, ex_song ''/m/b.mp3'' 200]"
    by (simp add: candidates_ex_two is_exact_def ex_song_def)
  then have l2: "length (filter (is_exact (Some (py ''song'')) (Some (py ''band'')))
      (candidates ?two 2 201)) > 1"
    by simp
  have e3: "filter (is_exact (Some (py ''song.'')) (Some (py ''band''))) (candidates ?one 2 201) = []"
    by (simp add: candidates_ex_one is_exact_def ex_song_def py_def)
  have f3: "filter (is_fuzzy (Some (py ''song.'')) (Some (py ''band''))) (candidates ?one 2 201) =
      [ex_song ''/m/a.mp3'' 200]"
    by (simp add: candidates_ex_one is_fuzzy_def ex_song_def jaccard_ex_dot)
  have t3: "truthy (Some (py ''song.''))"
    by (simp add: truthy_def py_def)
  note r1 = exact_one [OF e1]
  have r2: "find_matches ?two 2 (Some (py ''song'')) (Some (py ''band'')) 201 =
      [ex_song ''/m/a.mp3'' 200, ex_song ''/m/b.mp3'' 200]"
    using exact_many [OF l2] e2 by simp
  have r3: "find_matches ?one 2 (Some (py ''song.'')) (Some (py ''band'')) 201 =
      [ex_song ''/m/a.mp3'' 200]"
    using fuzzy [OF e3] t3 f3 by simp
  show ?thesis
    by (intro conjI) (fact e1 r1 l2 r2 e3 r3)+
qed


section \<open>The final path of an exported row\<close>

lemma py_inj [simp]: "py s = py t \<longleftrightarrow> s = t"
  by (simp add: py_def inj_map_eq_map inj_on_def)

lemma rstrip_Nil_iff: "rstrip s = [] \<longleftrightarrow> (\<forall>c \<in> set s. isspace c)"
  by (simp add: rstrip_def dropWhile_eq_Nil_conv)

lemma rstrip_Cons: "rstrip (c # cs) = (if isspace c \<and> rstrip cs = [] then [] else c # rstrip cs)"
  by (auto simp: rstrip_def dropWhile_append dropWhile_eq_Nil_conv)

lemma lstrip_rstrip: "lstrip (rstrip (lstrip s)) = rstrip (lstrip s)"
proof (cases "lstrip s")
  case Nil
  then have "rstrip (lstrip s) = []"
    by (simp add: rstrip_def)
  then show ?thesis
    by (simp add: lstrip_def)
next
  case (Cons c cs)
  then have "\<not> isspace c"
    unfolding lstrip_def by (metis hd_dropWhile list.distinct(1) list.sel(1))
  then show ?thesis
    by (simp add: Cons rstrip_Cons) (simp add: lstrip_def)
qed

lemma rstrip_idem: "rstrip (rstrip s) = rstrip s"
  by (simp add: rstrip_def dropWhile_idem)

lemma strip_idem [simp]: "strip (strip s) = strip s"
  by (simp add: strip_def lstrip_rstrip rstrip_idem)

lemma is_resolved_classify:
  "is_resolved_status (strip st) \<longleftrightarrow> classify_status st = py ''RESOLVED''"
proof -
  show ?thesis
    using any_in_Nil
    by (auto simp: is_resolved_status_def classify_status_def norm_status_def Let_def kind_distinct
        kind_distinct [symmetric] upper_def)
qed

lemma pick_final_from_first:
  "pick_final_from ks r =
     (case filter (\<lambda>s. s \<noteq> []) (map (\<lambda>k. strip (or_empty (get r k))) ks) of
        [] \<Rightarrow> []
      | s # _ \<Rightarrow> s)"
  by (induction ks) (simp_all add: Let_def)

lemma get_update_other:
  "py k' \<noteq> k \<Longrightarrow> get (r\<lparr>cells := (cells r)(k := v)\<rparr>) k' = get r k'"
  by (simp add: get_def)

lemma pick_final_from_update:
  "k \<notin> set (map py ks) \<Longrightarrow> pick_final_from ks (r\<lparr>cells := (cells r)(k := v)\<rparr>) = pick_final_from ks r"
  by (induction ks) (auto simp: get_def Let_def)

lemma export_path_update:
  assumes "k \<notin> set (map py PATH_COLUMNS)"
  shows "export_path sel (r\<lparr>cells := (cells r)(k := v)\<rparr>) = export_path sel r"
proof -
  from assms have f: "k \<notin> set (map py FINAL_KEYS)"
    and o: "py ''row_index'' \<noteq> k" "py ''original_path'' \<noteq> k" "py ''original'' \<noteq> k" "py ''status'' \<noteq> k"
    by (auto simp: PATH_COLUMNS_def)
  have "pick_final (r\<lparr>cells := (cells r)(k := v)\<rparr>) = pick_final r"
    by (simp add: pick_final_def pick_final_from_update [OF f])
  moreover have "row_index_text (r\<lparr>cells := (cells r)(k := v)\<rparr>) = row_index_text r"
    by (simp add: row_index_text_def get_update_other [OF o(1)] cong: option.case_cong)
  moreover have "orig_path (r\<lparr>cells := (cells r)(k := v)\<rparr>) = orig_path r"
    by (simp add: orig_path_def get_update_other [OF o(2)] get_update_other [OF o(3)])
  moreover have "status_raw (r\<lparr>cells := (cells r)(k := v)\<rparr>) = status_raw r"
    by (simp add: status_raw_def get_update_other [OF o(4)])
  ultimately show ?thesis
    by (simp add: export_path_def)
qed

lemmas row_defs = ex_row_def read_row_def get_def row_index_text_def orig_path_def status_raw_def
  py_or_def or_empty_def truthy_def

lemma ex_row_index [simp]: "row_index_text (ex_row st w) = py ''0''"
  by (simp add: row_defs str_defs)

lemma ex_row_status [simp]: "status_raw (ex_row st w) = py st"
  by (simp add: row_defs str_defs)

lemma ex_row_orig [simp]: "orig_path (ex_row st w) = py ''/old/a.mp3''"
  by (simp add: row_defs str_defs)

text \<open>A selections map that holds the empty text for a row does not decide the path of
  that row: the original path is written, not the selected (empty) one.\<close>

theorem export_path_counterexample:
  "row_index_text (ex_row ''FAILED'' ''/old/a.mp3'') = py ''0'' \<and>
   [py ''0'' \<mapsto> []] (py ''0'') = Some [] \<and>
   export_path [py ''0'' \<mapsto> []] (ex_row ''FAILED'' ''/old/a.mp3'') = py ''/old/a.mp3'' \<and>
   export_path [py ''0'' \<mapsto> []] (ex_row ''FAILED'' ''/old/a.mp3'') \<noteq> []"
proof -
  have "\<not> is_resolved_status (strip (py ''FAILED''))"
    by (simp add: is_resolved_status_def status_defs str_defs)
  then have "export_path [py ''0'' \<mapsto> []] (ex_row ''FAILED'' ''/old/a.mp3'') = py ''/old/a.mp3''"
    by (simp add: export_path_def truthy_def Let_def py_def)
  then show ?thesis
    by (simp add: py_def)
qed

text \<open>
  C4, amended: for every report row that \<open>export_fixed_multi\<close> exports, if the
  selections map holds a non-empty path under the row's (non-empty) row index, the
  path line is exactly that path, whatever the status and the other columns of the
  row; otherwise (also when the selected path is the empty text), if the status
  classifies as resolved, the path line is the first value among the whitelist of
  final-path columns that is non-empty after trimming, trimmed, or the trimmed original
  path when there is none; otherwise it is the trimmed original path. The path line
  depends on no column outside the whitelist, the row index, the original path and the
  status: the notes and candidate columns are never used.
\<close>

theorem export_path_precedence:
  "(\<forall>sel r p. row_index_text r \<noteq> [] \<and> sel (row_index_text r) = Some p \<and> p \<noteq> [] \<longrightarrow>
      export_path sel r = p) \<and>
   (\<forall>sel r. (row_index_text r = [] \<or> \<not> truthy (sel (row_index_text r))) \<and>
      classify_status (status_raw r) = py ''RESOLVED'' \<longrightarrow>
      export_path sel r =
        (case filter (\<lambda>s. s \<noteq> []) (map (\<lambda>k. strip (or_empty (get r k))) FINAL_KEYS) of
           [] \<Rightarrow> orig_path r
         | s # _ \<Rightarrow> s)) \<and>
   (\<forall>sel r. (row_index_text r = [] \<or> \<not> truthy (sel (row_index_text r))) \<and>
      classify_status (status_raw r) \<noteq> py ''RESOLVED'' \<longrightarrow>
      export_path sel r = orig_path r) \<and>
   (\<forall>sel r k v. k \<notin> set (map py PATH_COLUMNS) \<longrightarrow>
      export_path sel (r\<lparr>cells := (cells r)(k := v)\<rparr>) = export_path sel r) \<and>
   py ''notes'' \<notin> set (map py PATH_COLUMNS) \<and> py ''candidates'' \<notin> set (map py PATH_COLUMNS)"
proof (intro conjI allI impI)
  fix sel :: "pystr \<rightharpoonup> pystr" and r p
  assume "row_index_text r \<noteq> [] \<and> sel (row_index_text r) = Some p \<and> p \<noteq> []"
  then show "export_path sel r = p"
    by (simp add: export_path_def truthy_def or_empty_def)
next
  fix sel r
  assume a: "(row_index_text r = [] \<or> \<not> truthy (sel (row_index_text r))) \<and>
      classify_status (status_raw r) = py ''RESOLVED''"
  then have "is_resolved_status (strip (status_raw r))"
    by (simp add: is_resolved_classify)
  moreover from a have "\<not> truthy (if row_index_text r \<noteq> [] then sel (row_index_text r) else None)"
    by (auto simp: truthy_def)
  ultimately have e: "export_path sel r = (if pick_final r \<noteq> [] then pick_final r else orig_path r)"
    by (simp add: export_path_def Let_def)
  show "export_path sel r =
        (case filter (\<lambda>s. s \<noteq> []) (map (\<lambda>k. strip (or_empty (get r k))) FINAL_KEYS) of
           [] \<Rightarrow> orig_path r
         | s # _ \<Rightarrow> s)"
  proof (cases "filter (\<lambda>s. s \<noteq> []) (map (\<lambda>k. strip (or_empty (get r k))) FINAL_KEYS)")
    case Nil
    then show ?thesis
      by (simp add: e pick_final_def pick_final_from_first)
  next
    case (Cons x xs)
    then have "x \<in> set (filter (\<lambda>s. s \<noteq> []) (map (\<lambda>k. strip (or_empty (get r k))) FINAL_KEYS))"
      by simp
    then have "x \<noteq> []"
      by simp
    with Cons show ?thesis
      by (simp add: e pick_final_def pick_final_from_first)
  qed
next
  fix sel r
  assume a: "(row_index_text r = [] \<or> \<not> truthy (sel (row_index_text r))) \<and>
      classify_status (status_raw r) \<noteq> py ''RESOLVED''"
  then have "\<not> is_resolved_status (strip (status_raw r))"
    by (simp add: is_resolved_classify)
  moreover from a have "\<not> truthy (if row_index_text r \<noteq> [] then sel (row_index_text r) else None)"
    by (auto simp: truthy_def)
  ultimately show "export_path sel r = orig_path r"
    by (simp add: export_path_def Let_def)
next
  fix sel r k v
  assume "k \<notin> set (map py PATH_COLUMNS)"
  then show "export_path sel (r\<lparr>cells := (cells r)(k := v)\<rparr>) = export_path sel r"
    by (rule export_path_update)
next
  show "py ''notes'' \<notin> set (map py PATH_COLUMNS)"
    by (simp add: PATH_COLUMNS_def FINAL_KEYS_def)
  show "py ''candidates'' \<notin> set (map py PATH_COLUMNS)"
    by (simp add: PATH_COLUMNS_def FINAL_KEYS_def)
qed

lemma classify_ex:
  "classify_status (py ''REPAIRED'') = py ''RESOLVED''"
  "classify_status (py ''AMBIGUOUS'') \<noteq> py ''RESOLVED''"
  by (simp_all add: status_defs str_defs)

lemma final_values_ex:
  "filter (\<lambda>s. s \<noteq> []) (map (\<lambda>k. strip (or_empty (get (ex_row st ''/m/a.mp3'') k))) FINAL_KEYS) =
     [py ''/m/a.mp3'']"
  by (simp add: FINAL_KEYS_def row_defs str_defs)

theorem export_path_precedence_witness:
  "row_index_text (ex_row ''FAILED'' ''/old/a.mp3'') \<noteq> [] \<and>
   [py ''0'' \<mapsto> py ''/m/pick.mp3''] (row_index_text (ex_row ''FAILED'' ''/old/a.mp3'')) =
     Some (py ''/m/pick.mp3'') \<and>
   py ''/m/pick.mp3'' \<noteq> [] \<and>
   export_path [py ''0'' \<mapsto> py ''/m/pick.mp3''] (ex_row ''FAILED'' ''/old/a.mp3'') = py ''/m/pick.mp3'' \<and>
   \<not> truthy (Map.empty (row_index_text (ex_row ''REPAIRED'' ''/m/a.mp3''))) \<and>
   classify_status (status_raw (ex_row ''REPAIRED'' ''/m/a.mp3'')) = py ''RESOLVED'' \<and>
   export_path Map.empty (ex_row ''REPAIRED'' ''/m/a.mp3'') = py ''/m/a.mp3'' \<and>
   classify_status (status_raw (ex_row ''AMBIGUOUS'' ''/m/a.mp3'')) \<noteq> py ''RESOLVED'' \<and>
   export_path Map.empty (ex_row ''AMBIGUOUS'' ''/m/a.mp3'') = py ''/old/a.mp3'' \<and>
   py ''notes'' \<notin> set (map py PATH_COLUMNS) \<and>
   export_path Map.empty
     ((ex_row ''REPAIRED'' ''/m/a.mp3'')
        \<lparr>cells := (cells (ex_row ''REPAIRED'' ''/m/a.mp3''))(py ''notes'' := Some (py ''/m/z.mp3''))\<rparr>) =
     py ''/m/a.mp3''"
proof -
  note chosen = export_path_precedence [THEN conjunct1, rule_format]
  note resolved = export_path_precedence [THEN conjunct2, THEN conjunct1, rule_format]
  note unresolved = export_path_precedence [THEN conjunct2, THEN conjunct2, THEN conjunct1, rule_format]
  note other = export_path_precedence
    [THEN conjunct2, THEN conjunct2, THEN conjunct2, THEN conjunct1, rule_format]
  note no_notes = export_path_precedence
    [THEN conjunct2, THEN conjunct2, THEN conjunct2, THEN conjunct2, THEN conjunct1]
  have h1: "row_index_text (ex_row ''FAILED'' ''/old/a.mp3'') \<noteq> [] \<and>
      [py ''0'' \<mapsto> py ''/m/pick.mp3''] (row_index_text (ex_row ''FAILED'' ''/old/a.mp3'')) =
        Some (py ''/m/pick.mp3'') \<and> py ''/m/pick.mp3'' \<noteq> []"
    by (simp add: py_def)
  have r1: "export_path [py ''0'' \<mapsto> py ''/m/pick.mp3''] (ex_row ''FAILED'' ''/old/a.mp3'') =
      py ''/m/pick.mp3''"
    using chosen [of "ex_row ''FAILED'' ''/old/a.mp3''" "[py ''0'' \<mapsto> py ''/m/pick.mp3'']" "py ''/m/pick.mp3''"] h1
    by blast
  have n: "\<not> truthy (Map.empty (row_index_text (ex_row st w)))" for st w
    by (simp add: truthy_def)
  have c2: "classify_status (status_raw (ex_row ''REPAIRED'' ''/m/a.mp3'')) = py ''RESOLVED''"
    by (simp add: classify_ex)
  have r2: "export_path Map.empty (ex_row ''REPAIRED'' ''/m/a.mp3'') = py ''/m/a.mp3''"
    using resolved [of "ex_row ''REPAIRED'' ''/m/a.mp3''" Map.empty] n c2
    by (simp add: final_values_ex)
  have c3: "classify_status (status_raw (ex_row ''AMBIGUOUS'' ''/m/a.mp3'')) \<noteq> py ''RESOLVED''"
    by (simp add: classify_ex)
  have r3: "export_path Map.empty (ex_row ''AMBIGUOUS'' ''/m/a.mp3'') = py ''/old/a.mp3''"
    using unresolved [of "ex_row ''AMBIGUOUS'' ''/m/a.mp3''" Map.empty] n c3
    by simp
  have r4: "export_path Map.empty
     ((ex_row ''REPAIRED'' ''/m/a.mp3'')
        \<lparr>cells := (cells (ex_row ''REPAIRED'' ''/m/a.mp3''))(py ''notes'' := Some (py ''/m/z.mp3''))\<rparr>) =
     py ''/m/a.mp3''"
    using other [OF no_notes, of Map.empty "ex_row ''REPAIRED'' ''/m/a.mp3''"] r2 by simp
  from h1 r1 n c2 r2 c3 r3 no_notes r4 show ?thesis
    by (intro conjI) blast+
qed


section \<open>From the report to the final playlist\<close>

lemmas extinf_defs = parse_extinf_def is_digit_def digits_value_def rstrip_nl_def

lemma parse_extinf_ex:
  "parse_extinf (py ''#EXTINF:200,Band - Song'') = (Some 200, Some (py ''Band - Song''))"
  by (simp add: extinf_defs str_defs)

lemma rstrip_nl_ex [simp]: "rstrip_nl (py s @ [10]) = rstrip_nl (py s)"
  by (simp add: rstrip_nl_def)

lemma rstrip_nl_lines:
  "rstrip_nl (py ''#EXTM3U'') = py ''#EXTM3U''"
  "rstrip_nl (py ''#EXTINF:200,Band - Song'') = py ''#EXTINF:200,Band - Song''"
  "rstrip_nl (py ''/m/a.mp3'') = py ''/m/a.mp3''"
  "rstrip_nl (py ''/old/a.mp3'') = py ''/old/a.mp3''"
  by (simp_all add: rstrip_nl_def py_def)

lemma startswith_ex:
  "\<not> startswith (py ''#EXTM3U'') (py ''#EXTINF'')"
  "startswith (py ''#EXTINF:200,Band - Song'') (py ''#EXTINF'')"
  by (simp_all add: str_defs)

lemma repair_ex_playlist:
  "repair_playlist (\<lambda>p. True) idx tol ex_playlist =
     \<lparr>out_lines = [py ''#EXTM3U'', py ''#EXTINF:200,Band - Song'', py ''/m/a.mp3''],
      report_rows =
        [\<lparr>r_status = py ''KEPT'', r_extinf_duration = Some 200,
          r_extinf_display = Some (py ''Band - Song''), r_original_path = py ''/m/a.mp3'',
          r_written_path = py ''/m/a.mp3'', r_notes = []\<rparr>],
      total_count = 1, kept = 1, repaired = 0, ambiguous = 0, failed = 0\<rparr>"
  by (simp add: repair_playlist_def ex_playlist_def rstrip_nl_lines startswith_ex process_unit_def
      parse_extinf_ex)

lemma report_dict_no_extinf:
  "map_of (zip (map py REPORT_HEADER) (row_cells r)) (py ''extinf_line'') = None"
  "map_of (zip (map py REPORT_HEADER) (row_cells r)) (py ''extinf'') = None"
  by (simp_all add: REPORT_HEADER_def row_cells_def)

lemma export_extinf_report: "export_extinf (read_row i (map_of (zip (map py REPORT_HEADER) (row_cells r)))) = []"
  by (simp add: export_extinf_def get_def read_row_def report_dict_no_extinf py_or_def truthy_def
      or_empty_def)

lemma read_report_rows_set:
  "x \<in> set (read_report_rows ds) \<Longrightarrow> \<exists>i d. d \<in> set ds \<and> x = read_row i d"
proof -
  assume "x \<in> set (read_report_rows ds)"
  then obtain a where "a < length ds" and "x = read_row a (ds ! a)"
    by (auto simp: read_report_rows_def in_set_enumerate_eq)
  then have "ds ! a \<in> set ds \<and> x = read_row a (ds ! a)"
    by simp
  then show ?thesis
    by blast
qed

lemma export_extinf_rows:
  assumes "x \<in> set (read_report_rows (report_dicts rows))"
  shows "export_extinf x = []"
proof -
  from read_report_rows_set [OF assms] obtain i d where
    d: "d \<in> set (report_dicts rows)" and x: "x = read_row i d"
    by blast
  from d obtain r where "d = map_of (zip (map py REPORT_HEADER) (row_cells r))"
    by (auto simp: report_dicts_def)
  with x show ?thesis
    by (simp add: export_extinf_report)
qed

lemma export_lines_report:
  "export_lines sel (read_report_rows (report_dicts rows)) =
     py ''#EXTM3U'' # map (export_path sel) (read_report_rows (report_dicts rows))"
proof -
  have "concat (map (export_row sel) xs) = map (export_path sel) xs"
    if "\<And>x. x \<in> set xs \<Longrightarrow> export_extinf x = []" for xs
    using that by (induction xs) (simp_all add: export_row_def)
  then show ?thesis
    by (simp add: export_lines_def export_extinf_rows)
qed

lemma export_path_kept:
  "export_path Map.empty
     (read_row 0 (map_of (zip (map py REPORT_HEADER)
        (row_cells \<lparr>r_status = py ''KEPT'', r_extinf_duration = Some 200,
          r_extinf_display = Some (py ''Band - Song''), r_original_path = py ''/m/a.mp3'',
          r_written_path = py ''/m/a.mp3'', r_notes = []\<rparr>)))) = py ''/m/a.mp3''"
proof -
  have "is_resolved_status (strip (py ''KEPT''))"
    by (simp add: is_resolved_status_def status_defs str_defs)
  then show ?thesis
    by (simp add: export_path_def REPORT_HEADER_def row_cells_def row_defs pick_final_def FINAL_KEYS_def
        Let_def str_defs)
qed

text \<open>
  C9: the final playlist starts with the line \<open>#EXTM3U\<close> and holds exactly one path line
  for each report row, but no EXTINF line: the report that \<open>repair_playlist\<close> writes has
  no \<open>extinf_line\<close> or \<open>extinf\<close> column, the only columns from which the export takes
  the EXTINF line of a row. For the playlist with the entry \<open>#EXTINF:200,Band - Song\<close>
  and an existing path, the exported lines are \<open>#EXTM3U\<close> and the path alone.
\<close>

theorem export_drops_extinf:
  "(\<forall>sel rows.
      export_lines sel (read_report_rows (report_dicts rows)) =
        py ''#EXTM3U'' # map (export_path sel) (read_report_rows (report_dicts rows))) \<and>
   ex_playlist = [py ''#EXTM3U'' @ [10], py ''#EXTINF:200,Band - Song'' @ [10], py ''/m/a.mp3'' @ [10]] \<and>
   export_lines Map.empty
     (read_report_rows (report_dicts
        (report_rows (repair_playlist (\<lambda>p. True) [] DUR_TOL_DEFAULT ex_playlist)))) =
     [py ''#EXTM3U'', py ''/m/a.mp3''] \<and>
   export_fixed_multi (\<lambda>i. False)
     [\<lparr>report_csv = report_dicts
          (report_rows (repair_playlist (\<lambda>p. True) [] DUR_TOL_DEFAULT ex_playlist)),
       out_m3u = py ''fixed_15_selected.m3u'', selections = Map.empty\<rparr>] =
     (True, [(py ''fixed_15_selected.m3u'', py ''#EXTM3U'' @ [10] @ py ''/m/a.mp3'' @ [10])])"
proof (intro conjI allI)
  fix sel rows
  show "export_lines sel (read_report_rows (report_dicts rows)) =
        py ''#EXTM3U'' # map (export_path sel) (read_report_rows (report_dicts rows))"
    by (rule export_lines_report)
next
  show "ex_playlist = [py ''#EXTM3U'' @ [10], py ''#EXTINF:200,Band - Song'' @ [10], py ''/m/a.mp3'' @ [10]]"
    by (simp add: ex_playlist_def)
next
  have rows: "read_report_rows (report_dicts
        (report_rows (repair_playlist (\<lambda>p. True) [] DUR_TOL_DEFAULT ex_playlist))) =
      [read_row 0 (map_of (zip (map py REPORT_HEADER)
        (row_cells \<lparr>r_status = py ''KEPT'', r_extinf_duration = Some 200,
          r_extinf_display = Some (py ''Band - Song''), r_original_path = py ''/m/a.mp3'',
          r_written_path = py ''/m/a.mp3'', r_notes = []\<rparr>)))]"
    by (simp add: repair_ex_playlist report_dicts_def read_report_rows_def enumerate_simps)
  show l: "export_lines Map.empty
     (read_report_rows (report_dicts
        (report_rows (repair_playlist (\<lambda>p. True) [] DUR_TOL_DEFAULT ex_playlist)))) =
     [py ''#EXTM3U'', py ''/m/a.mp3'']"
    by (simp only: export_lines_report) (simp add: rows export_path_kept)
  show "export_fixed_multi (\<lambda>i. False)
     [\<lparr>report_csv = report_dicts
          (report_rows (repair_playlist (\<lambda>p. True) [] DUR_TOL_DEFAULT ex_playlist)),
       out_m3u = py ''fixed_15_selected.m3u'', selections = Map.empty\<rparr>] =
     (True, [(py ''fixed_15_selected.m3u'', py ''#EXTM3U'' @ [10] @ py ''/m/a.mp3'' @ [10])])"
    by (simp add: export_fixed_multi_def l)
qed


section \<open>Repairing a broken entry\<close>

lemma scan_overlapping_roots:
  "map_option fst
     (scan_index ex_helpers (\<lambda>i. False) [(py ''/'', [ex_band_file]), (py ''/m'', [ex_band_file])]) =
     Some ex_dup_index"
  by (simp add: scan_defs ex_helpers_def ex_band_file_def ex_dup_index_def ex_item_def str_defs Let_def)

lemma normalized_parts_ex: "normalized_parts (py ''Band - Song'') = [py ''band'', py ''song'']"
  by (simp add: normalized_parts_def norm_defs str_defs truthy_def or_empty_def)

lemma pairs_ex:
  "candidate_pairs_from_display (Some (py ''Band - Song'')) =
     [(py ''band'', Some (py ''song'')), (py ''song'', Some (py ''band''))]"
  by (simp add: candidate_pairs_from_display_def normalized_parts_ex truthy_def or_empty_def)
     (simp add: py_def)

lemma candidates_ex_dup:
  "candidates (build_by_dur ex_dup_index) 2 200 = [ex_song ''/m/a.mp3'' 200, ex_song ''/m/a.mp3'' 200]"
  by (simp add: candidates_buckets songs_def List.map_filter_simps ex_dup_index_def)
     (simp add: ex_song_def)

lemma find_matches_ex_dup:
  "find_matches (build_by_dur ex_dup_index) 2 (Some (py ''band'')) (Some (py ''song'')) 200 = []"
  "find_matches (build_by_dur ex_dup_index) 2 (Some (py ''song'')) (Some (py ''band'')) 200 =
     [ex_song ''/m/a.mp3'' 200, ex_song ''/m/a.mp3'' 200]"
  by (simp_all add: find_matches_def candidates_ex_dup is_exact_def is_fuzzy_def truthy_def ex_song_def
      py_def)

lemma collect_ex_dup:
  "collect_matches (build_by_dur ex_dup_index) 2 200
     [(py ''band'', Some (py ''song'')), (py ''song'', Some (py ''band''))] =
     [ex_song ''/m/a.mp3'' 200, ex_song ''/m/a.mp3'' 200]"
  by (simp add: collect_matches_def find_matches_ex_dup add_matches_def)

text \<open>
  C1: \<open>repair_playlist\<close> accumulates the matches of the candidate pairs without
  repeating a path only against the matches of earlier pairs: the matches that one call
  of \<open>find_matches\<close> returns are all added, although the loop is commented "keep distinct
  by path". With an index that holds the file \<open>/m/a.mp3\<close> twice, the broken entry
  \<open>#EXTINF:200,Band - Song\<close> accumulates that one path twice, and the row is AMBIGUOUS
  with the original path written, where accumulation without repeated paths gives one
  match and REPAIRED. Such an index is what the scan of two overlapping roots writes.
\<close>

theorem repair_duplicate_path_ambiguous:
  "map_option fst
     (scan_index ex_helpers (\<lambda>i. False) [(py ''/'', [ex_band_file]), (py ''/m'', [ex_band_file])]) =
     Some ex_dup_index \<and>
   ex_dup_index = [ex_item ''/m/a.mp3'' 200, ex_item ''/m/a.mp3'' 200] \<and>
   ex_broken_playlist = [py ''#EXTINF:200,Band - Song'' @ [10], py ''/old/a.mp3'' @ [10]] \<and>
   map path (collect_matches (build_by_dur ex_dup_index) DUR_TOL_DEFAULT 200
      (candidate_pairs_from_display (Some (py ''Band - Song'')))) = [py ''/m/a.mp3'', py ''/m/a.mp3''] \<and>
   repair_playlist (\<lambda>p. False) ex_dup_index DUR_TOL_DEFAULT ex_broken_playlist =
     \<lparr>out_lines = [py ''#EXTINF:200,Band - Song'', py ''/old/a.mp3''],
      report_rows =
        [\<lparr>r_status = py ''AMBIGUOUS'', r_extinf_duration = Some 200,
          r_extinf_display = Some (py ''Band - Song''), r_original_path = py ''/old/a.mp3'',
          r_written_path = py ''/old/a.mp3'', r_notes = py ''/m/a.mp3 | /m/a.mp3''\<rparr>],
      total_count = 1, kept = 0, repaired = 0, ambiguous = 1, failed = 0\<rparr>"
proof (intro conjI)
  show "map_option fst
     (scan_index ex_helpers (\<lambda>i. False) [(py ''/'', [ex_band_file]), (py ''/m'', [ex_band_file])]) =
     Some ex_dup_index"
    by (rule scan_overlapping_roots)
  show "ex_dup_index = [ex_item ''/m/a.mp3'' 200, ex_item ''/m/a.mp3'' 200]"
    by (simp add: ex_dup_index_def)
  show "ex_broken_playlist = [py ''#EXTINF:200,Band - Song'' @ [10], py ''/old/a.mp3'' @ [10]]"
    by (simp add: ex_broken_playlist_def)
  show "map path (collect_matches (build_by_dur ex_dup_index) DUR_TOL_DEFAULT 200
      (candidate_pairs_from_display (Some (py ''Band - Song'')))) = [py ''/m/a.mp3'', py ''/m/a.mp3'']"
    by (simp add: DUR_TOL_DEFAULT_def pairs_ex collect_ex_dup ex_song_def)
  have t: "truthy (Some (py ''Band - Song''))"
    by (simp add: truthy_def py_def)
  show "repair_playlist (\<lambda>p. False) ex_dup_index DUR_TOL_DEFAULT ex_broken_playlist =
     \<lparr>out_lines = [py ''#EXTINF:200,Band - Song'', py ''/old/a.mp3''],
      report_rows =
        [\<lparr>r_status = py ''AMBIGUOUS'', r_extinf_duration = Some 200,
          r_extinf_display = Some (py ''Band - Song''), r_original_path = py ''/old/a.mp3'',
          r_written_path = py ''/old/a.mp3'', r_notes = py ''/m/a.mp3 | /m/a.mp3''\<rparr>],
      total_count = 1, kept = 0, repaired = 0, ambiguous = 1, failed = 0\<rparr>"
    by (simp add: repair_playlist_def ex_broken_playlist_def rstrip_nl_lines startswith_ex
        process_unit_def parse_extinf_ex DUR_TOL_DEFAULT_def t pairs_ex collect_ex_dup ex_song_def)
       (simp add: py_def)
qed


section \<open>Further facts about the repair\<close>

lemma process_unit_exists:
  assumes "exists orig"
  shows "process_unit exists by_dur tol line orig st =
     st\<lparr>total_count := total_count st + 1, out_lines := out_lines st @ [orig], kept := kept st + 1,
        report_rows := report_rows st @
          [\<lparr>r_status = py ''KEPT'', r_extinf_duration = fst (parse_extinf line),
            r_extinf_display = snd (parse_extinf line), r_original_path = orig,
            r_written_path = orig, r_notes = []\<rparr>]\<rparr>"
  using assms by (simp add: process_unit_def Let_def split: prod.split)

lemma repair_loop_all_kept:
  assumes "all_kept st" and "list_all exists (unit_paths lines)"
  shows "all_kept (repair_loop exists by_dur tol lines st)"
  using assms
proof (induction exists by_dur tol lines st rule: repair_loop.induct)
  case (1 exists by_dur tol st)
  then show ?case by simp
next
  case (2 exists by_dur tol l st)
  then show ?case by (simp add: all_kept_def)
next
  case (3 exists by_dur tol l p rest st)
  let ?st1 = "st\<lparr>out_lines := out_lines st @ [rstrip_nl l]\<rparr>"
  have k1: "all_kept ?st1"
    using "3.prems"(1) by (simp add: all_kept_def)
  show ?case
  proof (cases "startswith (rstrip_nl l) (py ''#EXTINF'')")
    case True
    with "3.prems"(2) have e: "exists (rstrip_nl p)" and r: "list_all exists (unit_paths rest)"
      by simp_all
    have "all_kept (process_unit exists by_dur tol (rstrip_nl l) (rstrip_nl p) ?st1)"
      using k1 process_unit_exists [of exists "rstrip_nl p" by_dur tol "rstrip_nl l" ?st1] e
      by (simp add: all_kept_def)
    with "3.IH"(1) [OF refl refl True _ r] True show ?thesis
      by (simp add: Let_def)
  next
    case False
    with "3.prems"(2) have r: "list_all exists (unit_paths (p # rest))"
      by simp
    from "3.IH"(2) [OF refl refl False k1 r] False show ?thesis
      by (simp add: Let_def)
  qed
qed

lemma repair_playlist_all_kept:
  assumes "list_all exists (unit_paths lines)"
  shows "all_kept (repair_playlist exists music_index tol lines)"
  unfolding repair_playlist_def
  by (rule repair_loop_all_kept [OF _ assms]) (simp add: all_kept_def)

lemma distinct_paths_buckets:
  assumes "distinct (map path xs)" and "distinct ks"
  shows "distinct (map path (concat (map (\<lambda>k. filter (\<lambda>s. duration s = k) xs) ks)))"
  using assms(2)
proof (induction ks)
  case Nil
  show ?case by simp
next
  case (Cons k ks)
  have inj: "inj_on path (set xs)"
    using assms(1) by (simp add: distinct_map)
  have "distinct (map path (filter (\<lambda>s. duration s = k) xs))"
    using assms(1) by (rule distinct_map_filter)
  moreover have "distinct (map path (concat (map (\<lambda>k. filter (\<lambda>s. duration s = k) xs) ks)))"
    using Cons by simp
  moreover have "path a \<noteq> path b"
    if "a \<in> set xs" "duration a = k" "b \<in> set xs" "duration b \<in> set ks" for a b
  proof
    assume "path a = path b"
    with inj that have "a = b"
      by (auto dest: inj_onD)
    with that Cons.prems show False
      by auto
  qed
  ultimately show ?case
    by auto
qed

lemma distinct_paths_candidates:
  assumes "distinct (map path (songs idx))"
  shows "distinct (map path (candidates (build_by_dur idx) tol d))"
  unfolding candidates_buckets
  using assms by (rule distinct_paths_buckets) simp

lemma find_matches_filter:
  "\<exists>P. find_matches by_dur tol title_n artist_n d = filter P (candidates by_dur tol d)"
proof -
  let ?cand = "candidates by_dur tol d"
  let ?exact = "filter (is_exact title_n artist_n) ?cand"
  show ?thesis
  proof (cases "?cand = [] \<or> \<not> truthy title_n")
    case True
    then have "find_matches by_dur tol title_n artist_n d = filter (\<lambda>s. False) ?cand"
      by (simp add: find_matches_def)
    then show ?thesis by blast
  next
    case False
    show ?thesis
    proof (cases "?exact = []")
      case True
      with False have "find_matches by_dur tol title_n artist_n d = filter (is_fuzzy title_n artist_n) ?cand"
        by (simp add: find_matches_def Let_def)
      then show ?thesis by blast
    next
      case e: False
      then have "length ?exact = 1 \<or> 1 < length ?exact"
        by (cases ?exact) auto
      with False have "find_matches by_dur tol title_n artist_n d = ?exact"
        by (auto simp: find_matches_def Let_def)
      then show ?thesis by blast
    qed
  qed
qed

lemma distinct_paths_find_matches:
  assumes "distinct (map path (songs idx))"
  shows "distinct (map path (find_matches (build_by_dur idx) tol title_n artist_n d))"
proof -
  obtain P where "find_matches (build_by_dur idx) tol title_n artist_n d =
      filter P (candidates (build_by_dur idx) tol d)"
    using find_matches_filter by blast
  with distinct_paths_candidates [OF assms, of tol d] show ?thesis
    by (simp add: distinct_map_filter)
qed

lemma distinct_paths_add_matches:
  assumes "distinct (map path acc)" and "distinct (map path ms)"
  shows "distinct (map path (add_matches acc ms))"
proof (cases "ms = []")
  case True
  with assms(1) show ?thesis
    by (simp add: add_matches_def)
next
  case False
  have "distinct (map path (filter (\<lambda>m. path m \<notin> set (map path acc)) ms))"
    using assms(2) by (rule distinct_map_filter)
  moreover have "set (map path acc) \<inter> set (map path (filter (\<lambda>m. path m \<notin> set (map path acc)) ms)) = {}"
    by (auto simp: image_iff)
  ultimately show ?thesis
    using assms(1) False by (simp add: add_matches_def Let_def)
qed

lemma distinct_paths_fold:
  assumes "distinct (map path acc)" and "\<And>t a. distinct (map path (f t a))"
  shows "distinct (map path (foldl (\<lambda>acc (t, a). add_matches acc (f t a)) acc pairs))"
  using assms(1)
proof (induction pairs arbitrary: acc)
  case Nil
  then show ?case by simp
next
  case (Cons p pairs)
  obtain t a where p: "p = (t, a)"
    by (cases p)
  from Cons.prems assms(2) have "distinct (map path (add_matches acc (f t a)))"
    by (rule distinct_paths_add_matches)
  from Cons.IH [OF this] show ?case
    by (simp add: p)
qed

text \<open>
  When the paths of the songs of the index are distinct, the accumulated matches of an
  entry repeat no path, as the comment of the loop asks.
\<close>

lemma distinct_paths_collect_matches:
  assumes "distinct (map path (songs idx))"
  shows "distinct (map path (collect_matches (build_by_dur idx) tol d pairs))"
proof -
  let ?f = "\<lambda>t a. find_matches (build_by_dur idx) tol (Some t) a d"
  let ?g = "\<lambda>t (a :: pystr option). find_matches (build_by_dur idx) tol (Some t) None d"
  have f: "distinct (map path (foldl (\<lambda>acc (t, a). add_matches acc (?f t a)) acc pairs))"
    if "distinct (map path acc)" for acc
    using that distinct_paths_find_matches [OF assms] by (rule distinct_paths_fold)
  have g: "distinct (map path (foldl (\<lambda>acc (t, a). add_matches acc (?g t a)) acc pairs))"
    if "distinct (map path acc)" for acc
    using that distinct_paths_find_matches [OF assms] by (rule distinct_paths_fold)
  show ?thesis
    using f [of "[]"] g [of "[]"] by (auto simp: collect_matches_def Let_def)
qed


section \<open>Idempotence of the normalization\<close>

lemma lower_cp_dot [simp]: "lower_cp c = 46 \<longleftrightarrow> c = 46"
  by (auto simp: lower_cp_def)

lemma is_word_lower_cp [simp]: "is_word (lower_cp c) \<longleftrightarrow> is_word c"
  by (auto simp: is_word_def lower_cp_def)

lemma is_word_letters [simp]:
  "lower_cp c = 102 \<Longrightarrow> is_word c" "lower_cp c = 101 \<Longrightarrow> is_word c"
  "lower_cp c = 97 \<Longrightarrow> is_word c" "lower_cp c = 116 \<Longrightarrow> is_word c"
  by (auto simp: is_word_def lower_cp_def split: if_splits)

lemma not_word_dot [simp]: "\<not> is_word 46"
  by (simp add: is_word_def)

lemma py_feat_dot: "py ''feat.'' = [102, 101, 97, 116, 46]" "py ''ft.'' = [102, 116, 46]"
  "py ''feat'' = [102, 101, 97, 116]"
  by (simp_all add: py_def)

lemma length_ge_5:
  "5 \<le> length s \<longleftrightarrow> (\<exists>x1 x2 x3 x4 x5 r. s = x1 # x2 # x3 # x4 # x5 # r)"
  by (auto simp: numeral_eq_Suc Suc_le_length_iff)

lemma length_ge_3:
  "3 \<le> length s \<longleftrightarrow> (\<exists>x1 x2 x3 r. s = x1 # x2 # x3 # r)"
  by (auto simp: numeral_eq_Suc Suc_le_length_iff)

lemma take_eq_5:
  "map f (take 5 s) = [a, b, c, d, e] \<longleftrightarrow>
     (\<exists>x1 x2 x3 x4 x5 r. s = x1 # x2 # x3 # x4 # x5 # r \<and> f x1 = a \<and> f x2 = b \<and> f x3 = c \<and>
        f x4 = d \<and> f x5 = e)"
proof
  assume h: "map f (take 5 s) = [a, b, c, d, e]"
  then have "length (map f (take 5 s)) = length [a, b, c, d, e]"
    by simp
  then have "5 \<le> length s"
    by simp
  then obtain x1 x2 x3 x4 x5 r where "s = x1 # x2 # x3 # x4 # x5 # r"
    unfolding length_ge_5 by blast
  with h show "\<exists>x1 x2 x3 x4 x5 r. s = x1 # x2 # x3 # x4 # x5 # r \<and> f x1 = a \<and> f x2 = b \<and> f x3 = c \<and>
        f x4 = d \<and> f x5 = e"
    by auto
next
  assume "\<exists>x1 x2 x3 x4 x5 r. s = x1 # x2 # x3 # x4 # x5 # r \<and> f x1 = a \<and> f x2 = b \<and> f x3 = c \<and>
        f x4 = d \<and> f x5 = e"
  then show "map f (take 5 s) = [a, b, c, d, e]"
    by auto
qed

lemma take_eq_3:
  "map f (take 3 s) = [a, b, c] \<longleftrightarrow>
     (\<exists>x1 x2 x3 r. s = x1 # x2 # x3 # r \<and> f x1 = a \<and> f x2 = b \<and> f x3 = c)"
proof
  assume h: "map f (take 3 s) = [a, b, c]"
  then have "length (map f (take 3 s)) = length [a, b, c]"
    by simp
  then have "3 \<le> length s"
    by simp
  then obtain x1 x2 x3 r where "s = x1 # x2 # x3 # r"
    unfolding length_ge_3 by blast
  with h show "\<exists>x1 x2 x3 r. s = x1 # x2 # x3 # r \<and> f x1 = a \<and> f x2 = b \<and> f x3 = c"
    by auto
next
  assume "\<exists>x1 x2 x3 r. s = x1 # x2 # x3 # r \<and> f x1 = a \<and> f x2 = b \<and> f x3 = c"
  then show "map f (take 3 s) = [a, b, c]"
    by auto
qed

lemma match5_iff: "lower (take 5 s) = py ''feat.'' \<and> word_at s 5 \<longleftrightarrow> match5 s"
proof
  assume h: "lower (take 5 s) = py ''feat.'' \<and> word_at s 5"
  then obtain x1 x2 x3 x4 x5 r where s: "s = x1 # x2 # x3 # x4 # x5 # r"
    and l: "lower_cp x1 = 102" "lower_cp x2 = 101" "lower_cp x3 = 97" "lower_cp x4 = 116"
      "lower_cp x5 = 46"
    unfolding lower_def py_feat_dot take_eq_5 by blast
  from h s obtain w r' where r: "r = w # r'" and "is_word w"
    by (cases r) (auto simp: word_at_def)
  with s l show "match5 s"
    by (auto simp: match5_def)
next
  assume "match5 s"
  then show "lower (take 5 s) = py ''feat.'' \<and> word_at s 5"
    by (auto simp: match5_def lower_def py_feat_dot word_at_def)
qed

lemma match3_iff: "lower (take 3 s) = py ''ft.'' \<and> word_at s 3 \<longleftrightarrow> match3 s"
proof
  assume h: "lower (take 3 s) = py ''ft.'' \<and> word_at s 3"
  then obtain x1 x2 x3 r where s: "s = x1 # x2 # x3 # r"
    and l: "lower_cp x1 = 102" "lower_cp x2 = 116" "lower_cp x3 = 46"
    unfolding lower_def py_feat_dot take_eq_3 by blast
  from h s obtain w r' where r: "r = w # r'" and "is_word w"
    by (cases r) (auto simp: word_at_def)
  with s l show "match3 s"
    by (auto simp: match3_def)
next
  assume "match3 s"
  then show "lower (take 3 s) = py ''ft.'' \<and> word_at s 3"
    by (auto simp: match3_def lower_def py_feat_dot word_at_def)
qed

lemma match_word_at: "match5 s \<or> match3 s \<Longrightarrow> word_at s 0"
  by (auto simp: match5_def match3_def word_at_def)

lemma feat_match_eq:
  "feat_match prev s =
     (if \<not> prev \<and> match5 s then Some 5 else if \<not> prev \<and> match3 s then Some 3 else None)"
proof -
  have b: "word_boundary prev (word_at s 0) \<and> m \<longleftrightarrow> \<not> prev \<and> m" if "m \<Longrightarrow> word_at s 0" for m
    using that by (auto simp: word_boundary_def)
  have "feat_match prev s =
     (if word_boundary prev (word_at s 0) \<and> (lower (take 5 s) = py ''feat.'' \<and> word_at s 5) then Some 5
      else if word_boundary prev (word_at s 0) \<and> (lower (take 3 s) = py ''ft.'' \<and> word_at s 3)
      then Some 3 else None)"
    by (simp add: feat_match_def word_boundary_def)
  also have "\<dots> = (if \<not> prev \<and> match5 s then Some 5 else if \<not> prev \<and> match3 s then Some 3 else None)"
    unfolding match5_iff match3_iff
    using b [of "match5 s"] b [of "match3 s"] match_word_at [of s] by auto
  finally show ?thesis .
qed


lemma feat_sub_Cons:
  "feat_sub prev (c # cs) =
     (if \<not> prev \<and> match5 (c # cs) then py ''feat'' @ feat_sub False (drop 5 (c # cs))
      else if \<not> prev \<and> match3 (c # cs) then py ''feat'' @ feat_sub False (drop 3 (c # cs))
      else c # feat_sub (is_word c) cs)"
  by (simp add: feat_match_eq)

declare feat_sub.simps(2) [simp del]

lemma match_head: "match5 (c # cs) \<or> match3 (c # cs) \<Longrightarrow> lower_cp c = 102"
  by (auto simp: match5_def match3_def)

lemma feat_sub_no_f:
  "lower_cp c \<noteq> 102 \<Longrightarrow> feat_sub prev (c # cs) = c # feat_sub (is_word c) cs"
  using match_head [of c cs] by (auto simp: feat_sub_Cons)

lemma feat_sub_prev_word: "feat_sub True (c # cs) = c # feat_sub (is_word c) cs"
  by (simp add: feat_sub_Cons)







































lemma lower_cp_idem [simp]: "lower_cp (lower_cp c) = lower_cp c"
  by (auto simp: lower_cp_def)













lemma collapse_ws_head: "s \<noteq> [] \<Longrightarrow> \<not> isspace (hd s) \<Longrightarrow> hd (collapse_ws s) = hd s \<and> collapse_ws s \<noteq> []"
  by (cases s) simp_all











lemma norm_text_None [simp]: "norm_text None = None" "norm_text (Some []) = None"
  by (simp_all add: norm_text_def)





end
